theory Spec2Isabelle
  imports Complex_Main "HOL-Library.Sublist" "HOL-Library.Multiset" "HOL-Library.Log_Nat"
begin

section \<open>JavaScript strings\<close>

text \<open>
  A JavaScript string is a sequence of UTF-16 code units, and \<open>length\<close>, \<open>substring\<close>,
  \<open>includes\<close>, \<open>endsWith\<close> and \<open>trim\<close> all work on code units. A code unit is modelled
  by its number (0 to 65535) and a string by the list of its code units; \<open>ascii\<close>
  turns a literal of the source into that list.
\<close>

type_synonym jsstring = "nat list"

definition ascii :: "string \<Rightarrow> jsstring" where
  "ascii s = map of_char s"

text \<open>
  \<open>String.prototype.toLowerCase\<close>, on the letters A to Z; every other code unit is
  kept. The parser only searches the lowercased text for ASCII words, and the two code
  units outside A to Z whose lowercase form has an ASCII letter (U+0130, to \<open>i\<close> and a
  combining dot, and U+212A, to \<open>k\<close>) cannot complete one of them.
\<close>

definition lower_unit :: "nat \<Rightarrow> nat" where
  "lower_unit c = (if 65 \<le> c \<and> c \<le> 90 then c + 32 else c)"

definition toLowerCase :: "jsstring \<Rightarrow> jsstring" where
  "toLowerCase s = map lower_unit s"

fun startsWith :: "jsstring \<Rightarrow> jsstring \<Rightarrow> bool" where
  "startsWith s [] = True"
| "startsWith [] (k # ks) = False"
| "startsWith (c # cs) (k # ks) = (c = k \<and> startsWith cs ks)"

fun str_includes :: "jsstring \<Rightarrow> jsstring \<Rightarrow> bool" where
  "str_includes [] k = (k = [])"
| "str_includes (c # cs) k = (startsWith (c # cs) k \<or> str_includes cs k)"

definition endsWith :: "jsstring \<Rightarrow> jsstring \<Rightarrow> bool" where
  "endsWith s k = startsWith (rev s) (rev k)"

text \<open>
  \<open>trim\<close> removes the WhiteSpace and LineTerminator code units of ECMA-262 from both ends:
  TAB, LF, VT, FF, CR, SP, NBSP, U+1680, U+2000 to U+200A, U+2028, U+2029, U+202F, U+205F,
  U+3000 and U+FEFF.
\<close>

definition is_white_space :: "nat \<Rightarrow> bool" where
  "is_white_space c \<longleftrightarrow>
     c = 9 \<or> c = 10 \<or> c = 11 \<or> c = 12 \<or> c = 13 \<or> c = 32 \<or> c = 160 \<or> c = 5760 \<or>
     (8192 \<le> c \<and> c \<le> 8202) \<or> c = 8232 \<or> c = 8233 \<or> c = 8239 \<or> c = 8287 \<or>
     c = 12288 \<or> c = 65279"

definition trimStart :: "jsstring \<Rightarrow> jsstring" where
  "trimStart s = dropWhile is_white_space s"

definition trimEnd :: "jsstring \<Rightarrow> jsstring" where
  "trimEnd s = rev (dropWhile is_white_space (rev s))"

definition trim :: "jsstring \<Rightarrow> jsstring" where
  "trim s = trimEnd (trimStart s)"

text \<open>\<open>s.substring(a, b)\<close> for indices that are natural numbers: the two are swapped when
  \<open>a > b\<close>, and both are clamped to the length.\<close>

definition substring :: "jsstring \<Rightarrow> nat \<Rightarrow> nat \<Rightarrow> jsstring" where
  "substring s a b = take (max a b - min a b) (drop (min a b) s)"

definition repeat :: "jsstring \<Rightarrow> nat \<Rightarrow> jsstring" where
  "repeat s n = concat (replicate n s)"

fun join :: "jsstring list \<Rightarrow> jsstring \<Rightarrow> jsstring" where
  "join [] sep = []"
| "join [x] sep = x"
| "join (x # y # ys) sep = x @ sep @ join (y # ys) sep"

section \<open>JavaScript numbers\<close>

text \<open>
  A JavaScript number is an IEEE 754 binary64 value: a finite value, which is a real number
  of the form \<open>N * 2 ^ e\<close> with \<open>|N| < 2 ^ 53\<close> and \<open>- 1074 \<le> e \<le> 971\<close>, one of the two
  infinities, or NaN. The sign of zero is not modelled: no operation below yields a
  negative zero from the values it is applied to, and no test of the source tells the two
  zeros apart.
\<close>

datatype double = Finite real | Infinity | NegInfinity | NaN

text \<open>
  Rounding to the nearest value, ties to the even significand. For \<open>a > 0\<close>, \<open>binade a\<close>
  is the integer \<open>e\<close> with \<open>2 ^ e \<le> a < 2 ^ (e + 1)\<close>; the spacing of the values around \<open>a\<close>
  is \<open>2 ^ (e - 52)\<close>, and \<open>2 ^ (- 1074)\<close> below the smallest normal value. A result of
  \<open>2 ^ 1024\<close> or more is the overflow to infinity.
\<close>

definition binade :: "real \<Rightarrow> int" where
  "binade a =
     (if 1 \<le> a then int (floorlog 2 (nat \<lfloor>a\<rfloor>)) - 1
      else - int (floorlog 2 (nat (\<lceil>1 / a\<rceil> - 1))))"

definition round_half_even :: "real \<Rightarrow> int" where
  "round_half_even n =
     (if n - of_int \<lfloor>n\<rfloor> < 1 / 2 then \<lfloor>n\<rfloor>
      else if 1 / 2 < n - of_int \<lfloor>n\<rfloor> then \<lfloor>n\<rfloor> + 1
      else if even \<lfloor>n\<rfloor> then \<lfloor>n\<rfloor> else \<lfloor>n\<rfloor> + 1)"

definition scale :: "real \<Rightarrow> int \<Rightarrow> real" where
  "scale x k = (if 0 \<le> k then x * 2 ^ nat k else x / 2 ^ nat (- k))"

definition quantum_exponent :: "real \<Rightarrow> int" where
  "quantum_exponent a = max (binade a) (- 1022) - 52"

definition round_positive :: "real \<Rightarrow> double" where
  "round_positive a =
     (if 2 ^ 1024
          \<le> scale (of_int (round_half_even (scale a (- quantum_exponent a)))) (quantum_exponent a)
      then Infinity
      else Finite
        (scale (of_int (round_half_even (scale a (- quantum_exponent a)))) (quantum_exponent a)))"

definition round_double :: "real \<Rightarrow> double" where
  "round_double x =
     (if x = 0 then Finite 0
      else if 0 < x then round_positive x
      else (case round_positive (- x) of Finite r \<Rightarrow> Finite (- r) | _ \<Rightarrow> NegInfinity))"

text \<open>
  The operators \<open>*\<close>, \<open>/\<close> and \<open>-\<close>: the exact result, rounded. A division by zero takes
  the zero as positive.
\<close>

fun dmul :: "double \<Rightarrow> double \<Rightarrow> double" where
  "dmul (Finite a) (Finite b) = round_double (a * b)"
| "dmul NaN y = NaN"
| "dmul x NaN = NaN"
| "dmul (Finite a) Infinity = (if a = 0 then NaN else if 0 < a then Infinity else NegInfinity)"
| "dmul (Finite a) NegInfinity =
     (if a = 0 then NaN else if 0 < a then NegInfinity else Infinity)"
| "dmul Infinity (Finite b) = (if b = 0 then NaN else if 0 < b then Infinity else NegInfinity)"
| "dmul NegInfinity (Finite b) =
     (if b = 0 then NaN else if 0 < b then NegInfinity else Infinity)"
| "dmul Infinity Infinity = Infinity"
| "dmul NegInfinity NegInfinity = Infinity"
| "dmul Infinity NegInfinity = NegInfinity"
| "dmul NegInfinity Infinity = NegInfinity"

fun ddiv :: "double \<Rightarrow> double \<Rightarrow> double" where
  "ddiv (Finite a) (Finite b) =
     (if b = 0 then (if a = 0 then NaN else if 0 < a then Infinity else NegInfinity)
      else round_double (a / b))"
| "ddiv NaN y = NaN"
| "ddiv x NaN = NaN"
| "ddiv (Finite a) y = Finite 0"
| "ddiv Infinity (Finite b) = (if 0 \<le> b then Infinity else NegInfinity)"
| "ddiv NegInfinity (Finite b) = (if 0 \<le> b then NegInfinity else Infinity)"
| "ddiv x y = NaN"

fun dsub :: "double \<Rightarrow> double \<Rightarrow> double" where
  "dsub (Finite a) (Finite b) = round_double (a - b)"
| "dsub NaN y = NaN"
| "dsub x NaN = NaN"
| "dsub Infinity Infinity = NaN"
| "dsub NegInfinity NegInfinity = NaN"
| "dsub Infinity y = Infinity"
| "dsub NegInfinity y = NegInfinity"
| "dsub (Finite a) Infinity = NegInfinity"
| "dsub (Finite a) NegInfinity = Infinity"

text \<open>The comparisons \<open>x < y\<close> and \<open>x <= y\<close>, false when an operand is NaN, and \<open>d > 0\<close>.\<close>

fun dless :: "double \<Rightarrow> double \<Rightarrow> bool" where
  "dless (Finite a) (Finite b) = (a < b)"
| "dless (Finite a) Infinity = True"
| "dless NegInfinity (Finite b) = True"
| "dless NegInfinity Infinity = True"
| "dless x y = False"

fun dle :: "double \<Rightarrow> double \<Rightarrow> bool" where
  "dle NaN y = False"
| "dle x NaN = False"
| "dle x y = (x = y \<or> dless x y)"

definition positive :: "double \<Rightarrow> bool" where
  "positive d = dless (Finite 0) d"

text \<open>
  Every finite value is a multiple of \<open>2 ^ (- 1074)\<close>. The values that the benefit parser
  returns are such multiples that are not negative, or the positive infinity.
\<close>

definition subnormal_bits :: nat where
  "subnormal_bits = 1074"

definition representable :: "real \<Rightarrow> bool" where
  "representable r \<longleftrightarrow> (\<exists>N::int. r = of_int N / 2 ^ subnormal_bits)"

definition hours_value :: "double \<Rightarrow> bool" where
  "hours_value d \<longleftrightarrow>
     d = Infinity \<or> (\<exists>r. d = Finite r \<and> 0 \<le> r \<and> representable r)"

section \<open>The benefit parser (visualization component)\<close>

definition is_digit :: "nat \<Rightarrow> bool" where
  "is_digit c \<longleftrightarrow> 48 \<le> c \<and> c \<le> 57"

text \<open>
  \<open>benefit.match(/(\d+(\.\d+)?)/)\<close>: the leftmost digit run, as long as possible, followed
  by a point and a further digit run when there is one. The result is \<open>numbers[0]\<close>, the
  matched text, or \<open>None\<close> for JavaScript's \<open>null\<close>.
\<close>

definition match_number :: "jsstring \<Rightarrow> jsstring option" where
  "match_number s =
     (case dropWhile (\<lambda>c. \<not> is_digit c) s of
        [] \<Rightarrow> None
      | d # r \<Rightarrow>
          (case dropWhile is_digit (d # r) of
             [] \<Rightarrow> Some (takeWhile is_digit (d # r))
           | p # q \<Rightarrow>
               if p = 46 \<and> takeWhile is_digit q \<noteq> []
               then Some (takeWhile is_digit (d # r) @ [46] @ takeWhile is_digit q)
               else Some (takeWhile is_digit (d # r))))"

text \<open>
  The first decimal number of a string, in the words of the specification: \<open>m\<close> is the
  leftmost text of the form digits, or digits, a point and digits, and it is as long as
  possible. No digit stands before it; it is not followed by a digit; and when it has no
  point, it is not followed by a point and a digit.
\<close>

definition starts_with_digit :: "jsstring \<Rightarrow> bool" where
  "starts_with_digit q \<longleftrightarrow> (case q of [] \<Rightarrow> False | c # r \<Rightarrow> is_digit c)"

definition first_decimal :: "jsstring \<Rightarrow> jsstring \<Rightarrow> bool" where
  "first_decimal b m \<longleftrightarrow>
     (\<exists>pre post ip. b = pre @ m @ post \<and> (\<forall>c\<in>set pre. \<not> is_digit c) \<and>
        ip \<noteq> [] \<and> (\<forall>c\<in>set ip. is_digit c) \<and> \<not> starts_with_digit post \<and>
        (m = ip \<and> \<not> (\<exists>q. post = 46 # q \<and> starts_with_digit q) \<or>
         (\<exists>fp. fp \<noteq> [] \<and> (\<forall>c\<in>set fp. is_digit c) \<and> m = ip @ [46] @ fp)))"

definition digits_value :: "jsstring \<Rightarrow> nat" where
  "digits_value ds = foldl (\<lambda>a c. 10 * a + (c - 48)) 0 ds"

text \<open>
  The decimal value of a text of the form the pattern yields: a digit run, or a digit run,
  a point and a digit run.
\<close>

definition decimal_value :: "jsstring \<Rightarrow> real" where
  "decimal_value s =
     (case dropWhile is_digit s of
        [] \<Rightarrow> real (digits_value (takeWhile is_digit s))
      | p # q \<Rightarrow>
          if p = 46
          then real (digits_value (takeWhile is_digit s))
               + real (digits_value (takeWhile is_digit q)) / 10 ^ length (takeWhile is_digit q)
          else real (digits_value (takeWhile is_digit s)))"

text \<open>
  \<open>parseFloat\<close> on such a text: the number value of its decimal value, which is that value
  rounded. (ECMA-262 lets an engine replace the digits after the 20th significant one by
  zeros before rounding; the engines round the exact value.)
\<close>

definition parseFloat :: "jsstring \<Rightarrow> double" where
  "parseFloat s = round_double (decimal_value s)"

definition parseBenefitToWeeklyHours :: "jsstring \<Rightarrow> double" where
  "parseBenefitToWeeklyHours benefit =
     (let text = toLowerCase benefit in
      case match_number benefit of
        None \<Rightarrow> Finite 0
      | Some m \<Rightarrow>
          (let v = parseFloat m in
           if str_includes text (ascii ''hour'') \<or> str_includes text (ascii ''hr'') then
             (if str_includes text (ascii ''per day'') \<or> str_includes text (ascii ''daily'')
                then dmul v (Finite 5)
              else if str_includes text (ascii ''per month'') \<or> str_includes text (ascii ''monthly'')
                then ddiv v (Finite 4)
              else v)
           else if str_includes text (ascii ''minute'') \<or> str_includes text (ascii ''min'') then
             (if str_includes text (ascii ''per day'') \<or> str_includes text (ascii ''daily'')
                then dmul (ddiv v (Finite 60)) (Finite 5)
              else if str_includes text (ascii ''per month'') \<or> str_includes text (ascii ''monthly'')
                then ddiv (ddiv v (Finite 60)) (Finite 4)
              else ddiv v (Finite 60))
           else Finite 0))"

text \<open>
  The unit and the period of a lowercased text, in the words of the specification: the
  text contains one of the two words, somewhere.
\<close>

definition hour_unit :: "jsstring \<Rightarrow> bool" where
  "hour_unit t \<longleftrightarrow> sublist (ascii ''hour'') t \<or> sublist (ascii ''hr'') t"

definition minute_unit :: "jsstring \<Rightarrow> bool" where
  "minute_unit t \<longleftrightarrow> sublist (ascii ''minute'') t \<or> sublist (ascii ''min'') t"

definition per_day :: "jsstring \<Rightarrow> bool" where
  "per_day t \<longleftrightarrow> sublist (ascii ''per day'') t \<or> sublist (ascii ''daily'') t"

definition per_month :: "jsstring \<Rightarrow> bool" where
  "per_month t \<longleftrightarrow> sublist (ascii ''per month'') t \<or> sublist (ascii ''monthly'') t"

text \<open>\<open>truncateLabel\<close> of the visualization component; the chart calls it with 20.\<close>

definition truncateLabel :: "jsstring \<Rightarrow> nat \<Rightarrow> jsstring" where
  "truncateLabel label maxLength =
     (if length label \<le> maxLength then label
      else trim (substring label 0 maxLength) @ ascii ''...'')"

section \<open>The chart data (visualization component)\<close>

record AutomationSuggestion =
  area :: jsstring
  tool :: jsstring
  benefit :: jsstring
  steps :: "jsstring list"

record ChartData =
  area :: jsstring
  hoursSaved :: double

text \<open>
  \<open>Array.prototype.sort\<close> with a comparator is stable (ECMAScript 2019) and reads only
  whether the comparator's value is below, above or neither below nor above zero, NaN
  counting as zero. For a comparator that is consistent, the result is the one of
  inserting the elements one by one, from the right, each behind the elements it compares
  above zero with.
\<close>

fun sort_insert :: "('a \<Rightarrow> 'a \<Rightarrow> double) \<Rightarrow> 'a \<Rightarrow> 'a list \<Rightarrow> 'a list" where
  "sort_insert cmp x [] = [x]"
| "sort_insert cmp x (y # ys) =
     (if positive (cmp x y) then y # sort_insert cmp x ys else x # y # ys)"

definition array_sort :: "('a \<Rightarrow> 'a \<Rightarrow> double) \<Rightarrow> 'a list \<Rightarrow> 'a list" where
  "array_sort cmp xs = foldr (sort_insert cmp) xs []"

text \<open>The object that the \<open>map\<close> step of \<open>chartData\<close> builds from a suggestion.\<close>

definition chart_record :: "AutomationSuggestion \<Rightarrow> ChartData" where
  "chart_record s =
     \<lparr>area = AutomationSuggestion.area s,
      hoursSaved = parseBenefitToWeeklyHours (benefit s)\<rparr>"

text \<open>The computed signal \<open>chartData\<close>; \<open>None\<close> is the \<open>null\<close> input.\<close>

definition chartData :: "AutomationSuggestion list option \<Rightarrow> ChartData list" where
  "chartData suggestions =
     (case suggestions of
        None \<Rightarrow> []
      | Some ss \<Rightarrow>
          array_sort (\<lambda>a b. dsub (hoursSaved b) (hoursSaved a))
            (filter (\<lambda>s. positive (hoursSaved s)) (map chart_record ss)))"

section \<open>The directory summary (application component)\<close>

text \<open>
  Exceptions are values. A \<open>DOMException\<close> carries its name and its message, the other
  errors their message.
\<close>

datatype js_exn =
  Error jsstring
| DOMException jsstring jsstring
| TypeError jsstring
| SyntaxError jsstring

text \<open>
  The File System Access handles. A file handle has a name and the outcome of \<open>getFile()\<close>:
  an exception, or a file with its size in bytes and the outcome of \<open>text()\<close>. A directory
  handle has a name, the entries that \<open>values()\<close> yields, in the order it yields them, and
  the exception that the iteration throws after them, if it throws one.
\<close>

record File =
  file_size :: nat
  file_text :: "js_exn + jsstring"

datatype handle =
  FileHandle jsstring "js_exn + File"
| DirectoryHandle jsstring "handle list" "js_exn option"

fun name :: "handle \<Rightarrow> jsstring" where
  "name (FileHandle n f) = n"
| "name (DirectoryHandle n es x) = n"

fun is_directory :: "handle \<Rightarrow> bool" where
  "is_directory (FileHandle n f) = False"
| "is_directory (DirectoryHandle n es x) = True"

definition IGNORE_DIRS :: "jsstring list" where
  "IGNORE_DIRS = [ascii ''node_modules'', ascii ''dist'', ascii ''.git'', ascii ''target'',
     ascii ''build'', ascii ''__pycache__'']"

text \<open>The two icons of the tree lines, as the code units of the source text.\<close>

definition directory_icon :: jsstring where
  "directory_icon = [240, 376, 8220]"

definition file_icon :: jsstring where
  "file_icon = [240, 376, 8220, 8222]"

definition tree_line :: "nat \<Rightarrow> handle \<Rightarrow> jsstring" where
  "tree_line depth h =
     repeat (ascii ''  '') depth
     @ (if is_directory h then directory_icon else file_icon) @ ascii '' '' @ name h"

definition isKeyFile :: "jsstring list \<Rightarrow> bool \<Rightarrow> jsstring \<Rightarrow> bool" where
  "isKeyFile keyFiles checkExtension n =
     (if checkExtension then list_ex (\<lambda>ext. endsWith n ext) keyFiles
      else n \<in> set keyFiles)"

record KeyFile =
  path :: jsstring
  content :: jsstring

text \<open>The two arrays that the closure \<open>traverse\<close> fills.\<close>

record summary_state =
  fileTree :: "jsstring list"
  importantFiles :: "KeyFile list"

text \<open>
  \<open>traverse\<close>, with the variables it captures (\<open>keyFiles\<close>, \<open>checkExtension\<close>,
  \<open>maxDepth\<close>) as parameters and the two arrays passed through. \<open>for_await\<close> is its loop
  over \<open>handle.values()\<close>. An exception of \<open>getFile()\<close> or \<open>text()\<close> is caught (and logged
  to the console, which is not modelled); an exception of the iteration leaves \<open>traverse\<close>.
\<close>

fun traverse ::
    "jsstring list \<Rightarrow> bool \<Rightarrow> int \<Rightarrow> handle \<Rightarrow> jsstring \<Rightarrow> nat \<Rightarrow> summary_state
      \<Rightarrow> js_exn + summary_state"
  and for_await ::
    "jsstring list \<Rightarrow> bool \<Rightarrow> int \<Rightarrow> handle list \<Rightarrow> js_exn option \<Rightarrow> jsstring \<Rightarrow> nat
      \<Rightarrow> summary_state \<Rightarrow> js_exn + summary_state"
where
  "traverse keyFiles checkExtension maxDepth (DirectoryHandle n es x) p depth st =
     (if int depth > maxDepth then Inr st
      else if n \<in> set IGNORE_DIRS
        then Inr (st\<lparr>fileTree := fileTree st @ [tree_line depth (DirectoryHandle n es x)]\<rparr>)
      else for_await keyFiles checkExtension maxDepth es x p depth
             (st\<lparr>fileTree := fileTree st @ [tree_line depth (DirectoryHandle n es x)]\<rparr>))"
| "traverse keyFiles checkExtension maxDepth (FileHandle n f) p depth st =
     (if int depth > maxDepth then Inr st
      else if isKeyFile keyFiles checkExtension n
        then (if endsWith n (ascii ''.pdf'') \<or> endsWith n (ascii ''.epub'')
              then Inr (st\<lparr>fileTree := fileTree st @ [tree_line depth (FileHandle n f)]\<rparr>)
              else (case f of
                      Inl e \<Rightarrow>
                        Inr (st\<lparr>fileTree := fileTree st @ [tree_line depth (FileHandle n f)]\<rparr>)
                    | Inr file \<Rightarrow>
                        if file_size file < 100 * 1024
                        then (case file_text file of
                                Inl e \<Rightarrow>
                                  Inr (st\<lparr>fileTree :=
                                    fileTree st @ [tree_line depth (FileHandle n f)]\<rparr>)
                              | Inr c \<Rightarrow>
                                  Inr (st\<lparr>fileTree :=
                                         fileTree st @ [tree_line depth (FileHandle n f)],
                                       importantFiles := importantFiles st
                                         @ [\<lparr>path = p @ ascii ''/'' @ n, content = c\<rparr>]\<rparr>))
                        else Inr (st\<lparr>fileTree :=
                               fileTree st @ [tree_line depth (FileHandle n f)]\<rparr>)))
      else Inr (st\<lparr>fileTree := fileTree st @ [tree_line depth (FileHandle n f)]\<rparr>))"
| "for_await keyFiles checkExtension maxDepth [] x p depth st =
     (case x of None \<Rightarrow> Inr st | Some e \<Rightarrow> Inl e)"
| "for_await keyFiles checkExtension maxDepth (entry # es) x p depth st =
     (case traverse keyFiles checkExtension maxDepth entry (p @ ascii ''/'' @ name entry)
             (depth + 1) st of
        Inl e \<Rightarrow> Inl e
      | Inr st' \<Rightarrow> for_await keyFiles checkExtension maxDepth es x p depth st')"

definition file_block :: "KeyFile \<Rightarrow> jsstring" where
  "file_block file =
     ascii ''### FILE: '' @ path file @ ascii ''\<newline>```\<newline>'' @ content file
     @ ascii ''\<newline>```\<newline>\<newline>''"

definition render_summary :: "jsstring \<Rightarrow> summary_state \<Rightarrow> jsstring" where
  "render_summary rootName st =
     ascii ''Directory Root: '' @ rootName @ ascii ''\<newline>\<newline>''
     @ ascii ''Directory Structure:\<newline>'' @ join (fileTree st) (ascii ''\<newline>'')
     @ ascii ''\<newline>\<newline>''
     @ (if length (importantFiles st) > 0
        then ascii ''--- Key File Contents ---\<newline>\<newline>''
             @ concat (map file_block (importantFiles st))
        else [])"

definition generateDirectorySummary ::
    "handle \<Rightarrow> jsstring list \<Rightarrow> bool \<Rightarrow> int \<Rightarrow> js_exn + jsstring" where
  "generateDirectorySummary directoryHandle keyFiles checkExtension maxDepth =
     (case traverse keyFiles checkExtension maxDepth directoryHandle (name directoryHandle) 0
             \<lparr>fileTree = [], importantFiles = []\<rparr> of
        Inl e \<Rightarrow> Inl e
      | Inr st \<Rightarrow> Inr (render_summary (name directoryHandle) st))"

definition is_abort :: "js_exn \<Rightarrow> bool" where
  "is_abort err = (case err of DOMException nm msg \<Rightarrow> nm = ascii ''AbortError'' | _ \<Rightarrow> False)"

definition unsupported_browser :: js_exn where
  "unsupported_browser = Error (ascii
     ''Your browser does not support scanning local folders. Please use a modern browser like Chrome or Edge.'')"

definition empty_directory :: js_exn where
  "empty_directory = Error (ascii
     ''The selected directory appears to be empty or could not be read.'')"

text \<open>
  \<open>pickAndSummarizeDirectory\<close>. The window is given by \<open>showDirectoryPicker\<close>: \<open>None\<close> when
  the window has no such property, otherwise the outcome of the call, an exception or the
  handle the user picked. The result \<open>Inr None\<close> is the returned \<open>null\<close>.
\<close>

definition pickAndSummarizeDirectory ::
    "(js_exn + handle) option \<Rightarrow> jsstring list \<Rightarrow> bool \<Rightarrow> js_exn + jsstring option" where
  "pickAndSummarizeDirectory showDirectoryPicker keyFileSet checkExtension =
     (case showDirectoryPicker of
        None \<Rightarrow> Inl unsupported_browser
      | Some picked \<Rightarrow>
          (case (case picked of
                   Inl e \<Rightarrow> Inl e
                 | Inr directoryHandle \<Rightarrow>
                     (case generateDirectorySummary directoryHandle keyFileSet checkExtension 3 of
                        Inl e \<Rightarrow> Inl e
                      | Inr summary \<Rightarrow>
                          if trim summary = [] then Inl empty_directory else Inr summary)) of
             Inl err \<Rightarrow> if is_abort err then Inr None else Inl err
           | Inr summary \<Rightarrow> Inr (Some summary)))"

section \<open>The response adapter (Gemini service)\<close>

datatype json =
  JNull
| JBool bool
| JNumber double
| JString jsstring
| JArray "json list"
| JObject "(jsstring \<times> json) list"

definition not_configured :: js_exn where
  "not_configured = Error (ascii
     ''Gemini API key is not configured. Please set the API_KEY environment variable to use the application.'')"

definition failed_to_get_suggestions :: js_exn where
  "failed_to_get_suggestions = Error (ascii
     ''Failed to get automation suggestions. Please check your API key and try again.'')"

text \<open>
  \<open>generateSuggestions\<close>. The client \<open>ai\<close> is \<open>None\<close> for \<open>null\<close>, otherwise the function
  from the prompt to the outcome of \<open>models.generateContent\<close>: an exception, or a response
  whose \<open>text\<close> is a string or \<open>undefined\<close>. \<open>JSON.parse\<close> is the built-in of the language,
  a parameter here: it returns the parsed value or throws. The cast of the parsed value to
  \<open>AutomationResponse\<close> exists only for the type checker, so the value is returned as it is.
\<close>

definition generateSuggestions ::
    "(jsstring \<Rightarrow> js_exn + json) \<Rightarrow> bool \<Rightarrow> (jsstring \<Rightarrow> js_exn + jsstring option) option
      \<Rightarrow> jsstring \<Rightarrow> js_exn + json" where
  "generateSuggestions JSON_parse isConfigured ai prompt =
     (case ai of
        None \<Rightarrow> Inl not_configured
      | Some generateContent \<Rightarrow>
          if \<not> isConfigured then Inl not_configured
          else (case (case generateContent prompt of
                        Inl e \<Rightarrow> Inl e
                      | Inr None \<Rightarrow>
                          Inl (TypeError (ascii ''Cannot read properties of undefined''))
                      | Inr (Some response_text) \<Rightarrow> JSON_parse (trim response_text)) of
                  Inl error \<Rightarrow> Inl failed_to_get_suggestions
                | Inr parsedResponse \<Rightarrow> Inr parsedResponse))"


text \<open>The property \<open>v.k\<close> of a parsed value: \<open>None\<close> is \<open>undefined\<close>, the field is absent.\<close>

definition field :: "json \<Rightarrow> jsstring \<Rightarrow> json option" where
  "field v k = (case v of JObject fs \<Rightarrow> map_of fs k | _ \<Rightarrow> None)"

section \<open>The nodes of a directory tree\<close>

text \<open>
  The nodes of the tree under a handle, in pre-order, for a set \<open>ign\<close> of directory names:
  each node with its depth and with the flag that one of the directories above it, inside
  this tree, has a name in \<open>ign\<close>. The flag of a node says nothing about the node's own
  name.
\<close>

fun tree_nodes :: "jsstring set \<Rightarrow> nat \<Rightarrow> bool \<Rightarrow> handle \<Rightarrow> (nat \<times> bool \<times> handle) list" where
  "tree_nodes ign d below (FileHandle n f) = [(d, below, FileHandle n f)]"
| "tree_nodes ign d below (DirectoryHandle n es x) =
     (d, below, DirectoryHandle n es x)
     # concat (map (tree_nodes ign (Suc d) (below \<or> n \<in> ign)) es)"

text \<open>A node is listed when its depth is at most \<open>maxDepth\<close> and no directory above it is
  ignored.\<close>

fun listed :: "int \<Rightarrow> nat \<times> bool \<times> handle \<Rightarrow> bool" where
  "listed maxDepth (d, below, h) = (int d \<le> maxDepth \<and> \<not> below)"

fun node_line :: "nat \<times> bool \<times> handle \<Rightarrow> jsstring" where
  "node_line (d, below, h) = tree_line d h"

section \<open>Sample inputs\<close>

definition sample_suggestions :: "AutomationSuggestion list" where
  "sample_suggestions =
     [\<lparr>AutomationSuggestion.area = ascii ''Stand-up notes'', tool = ascii ''Python'',
       benefit = ascii ''5 minutes daily'', steps = []\<rparr>,
      \<lparr>AutomationSuggestion.area = ascii ''Reports'', tool = ascii ''Excel macros'',
       benefit = ascii ''25 minutes'', steps = []\<rparr>,
      \<lparr>AutomationSuggestion.area = ascii ''Inbox'', tool = ascii ''Gmail filters'',
       benefit = ascii ''Saves 2 hours per day'', steps = []\<rparr>,
      \<lparr>AutomationSuggestion.area = ascii ''Reviews'', tool = ascii ''Linting'',
       benefit = ascii ''Catches bugs early'', steps = []\<rparr>,
      \<lparr>AutomationSuggestion.area = ascii ''Posting'', tool = ascii ''Zapier'',
       benefit = ascii ''Saves 10 hours'', steps = []\<rparr>]"

text \<open>
  The directory of the specification's example: \<open>root\<close> with the file \<open>notes.md\<close> (50 bytes,
  text "hello") and the directory \<open>node_modules\<close>, which holds \<open>pkg/index.js\<close>.
\<close>

definition sample_root :: handle where
  "sample_root =
     DirectoryHandle (ascii ''root'')
       [FileHandle (ascii ''notes.md'') (Inr \<lparr>file_size = 50, file_text = Inr (ascii ''hello'')\<rparr>),
        DirectoryHandle (ascii ''node_modules'')
          [DirectoryHandle (ascii ''pkg'')
             [FileHandle (ascii ''index.js'')
                (Inr \<lparr>file_size = 12, file_text = Inr (ascii ''export {};'')\<rparr>)]
             None]
          None]
       None"

text \<open>A project \<open>app\<close> with \<open>src/lib/a.ts\<close> and \<open>dist/bundle.js\<close>.\<close>

definition sample_project :: handle where
  "sample_project =
     DirectoryHandle (ascii ''app'')
       [DirectoryHandle (ascii ''src'')
          [DirectoryHandle (ascii ''lib'')
             [FileHandle (ascii ''a.ts'') (Inr \<lparr>file_size = 7, file_text = Inr (ascii ''let a;'')\<rparr>)]
             None]
          None,
        DirectoryHandle (ascii ''dist'')
          [FileHandle (ascii ''bundle.js'')
             (Inr \<lparr>file_size = 9, file_text = Inr (ascii ''var a;'')\<rparr>)]
          None]
       None"

text \<open>A directory whose listing fails with an exception that is not an abort.\<close>

definition not_found :: js_exn where
  "not_found = DOMException (ascii ''NotFoundError'') (ascii ''The directory was removed.'')"

definition sample_unreadable :: handle where
  "sample_unreadable = DirectoryHandle (ascii ''gone'') [] (Some not_found)"

definition sample_state :: summary_state where
  "sample_state = \<lparr>fileTree = [directory_icon @ ascii '' data''], importantFiles = []\<rparr>"

text \<open>
  A client whose response text is \<open>{}\<close>, a client whose response text is prose, and a
  parse function that agrees with \<open>JSON.parse\<close> on these two texts, the only ones it is
  applied to below: \<open>JSON.parse\<close> returns the object without fields for the first and
  throws a \<open>SyntaxError\<close> for the second.
\<close>

definition sample_ai :: "jsstring \<Rightarrow> js_exn + jsstring option" where
  "sample_ai prompt = Inr (Some (ascii ''{}''))"

definition sample_garbled_ai :: "jsstring \<Rightarrow> js_exn + jsstring option" where
  "sample_garbled_ai prompt = Inr (Some (ascii ''Here are three ideas''))"

definition sample_JSON_parse :: "jsstring \<Rightarrow> js_exn + json" where
  "sample_JSON_parse s =
     (if s = ascii ''{}'' then Inr (JObject [])
      else Inl (SyntaxError (ascii ''Unexpected token'')))"

text \<open>An empty directory, a file of exactly 100KB and a PDF file.\<close>

definition sample_empty :: handle where
  "sample_empty = DirectoryHandle (ascii ''empty'') [] None"

definition sample_large :: File where
  "sample_large = \<lparr>file_size = 102400, file_text = Inr (ascii ''id,total'')\<rparr>"

definition sample_pdf :: File where
  "sample_pdf = \<lparr>file_size = 2048, file_text = Inr (ascii ''%PDF-1.7'')\<rparr>"

section \<open>Properties of the numbers\<close>

lemma scale_powi: "scale x k = x * 2 powi k"
  by (simp add: scale_def power_int_def field_simps power_minus' inverse_eq_divide)

lemma binade_lower:
  assumes "0 < a"
  shows "2 powi (binade a) \<le> a"
proof (cases "1 \<le> a")
  case True
  define n where "n = nat \<lfloor>a\<rfloor>"
  have n: "0 < n" "real n \<le> a"
    using True by (simp_all add: n_def)
  from floorlog_bounds [of n 2] n have "2 ^ (floorlog 2 n - 1) \<le> n"
    by simp
  then have "real (2 ^ (floorlog 2 n - 1)) \<le> real n"
    by (rule iffD2 [OF of_nat_le_iff])
  then have r: "(2::real) ^ (floorlog 2 n - 1) \<le> real n"
    by simp
  have "0 < floorlog 2 n"
    using n by (simp add: floorlog_def)
  then have "binade a = int (floorlog 2 n - 1)"
    using True by (simp add: binade_def n_def [symmetric])
  then have "2 powi (binade a) = (2::real) ^ (floorlog 2 n - 1)"
    by (simp add: power_int_def)
  with r n show ?thesis
    by linarith
next
  case False
  define m where "m = nat (\<lceil>1 / a\<rceil> - 1)"
  have b: "1 < 1 / a"
    using False assms by simp
  then have "1 < \<lceil>1 / a\<rceil>"
    by (metis less_ceiling_iff of_int_1)
  then have c: "2 \<le> \<lceil>1 / a\<rceil>"
    by simp
  then have m: "0 < m" "int m + 1 = \<lceil>1 / a\<rceil>"
    unfolding m_def by linarith+
  from floorlog_bounds [of m 2] m have "m < 2 ^ floorlog 2 m"
    by simp
  then have "int m + 1 \<le> 2 ^ floorlog 2 m"
    by (metis Suc_leI of_nat_Suc of_nat_le_iff of_nat_numeral of_nat_power add.commute
        of_nat_1 of_nat_add)
  then have "\<lceil>1 / a\<rceil> \<le> 2 ^ floorlog 2 m"
    using m by simp
  then have "1 / a \<le> 2 ^ floorlog 2 m"
    by (simp add: ceiling_le_iff)
  then have "1 / 2 ^ floorlog 2 m \<le> a"
    using assms by (simp add: field_simps)
  moreover have "binade a = - int (floorlog 2 m)"
    using False by (simp add: binade_def m_def)
  ultimately show ?thesis
    by (cases "floorlog 2 m = 0") (simp_all add: power_int_def inverse_eq_divide power_one_over)
qed

lemma round_half_even_ge_floor: "\<lfloor>n\<rfloor> \<le> round_half_even n"
  by (simp add: round_half_even_def)

lemma quantum_exponent_ge: "- int subnormal_bits \<le> quantum_exponent a"
  by (simp add: quantum_exponent_def subnormal_bits_def)

lemma scale_multiple:
  assumes "- int m \<le> k"
  shows "\<exists>M::int. scale (of_int N) k = of_int M / 2 ^ m"
proof (cases "0 \<le> k")
  case True
  have "scale (of_int N) k = of_int (N * 2 ^ nat k * 2 ^ m) / 2 ^ m"
    using True by (simp add: scale_def)
  then show ?thesis by blast
next
  case False
  define j where "j = nat (- k)"
  have j: "j \<le> m" "scale (of_int N) k = of_int N / 2 ^ j"
    using False assms by (simp_all add: j_def scale_def)
  have "(2::real) ^ m = 2 ^ j * 2 ^ (m - j)"
    using j(1) by (simp add: power_add [symmetric])
  then have "scale (of_int N) k = of_int (N * 2 ^ (m - j)) / 2 ^ m"
    using j(2) by simp
  then show ?thesis by blast
qed

lemma representable_scale:
  "- int subnormal_bits \<le> k \<Longrightarrow> representable (scale (of_int N) k)"
  unfolding representable_def by (rule scale_multiple)

lemma round_positive_cases:
  assumes "0 < a"
  shows "round_positive a = Infinity
         \<or> (\<exists>r. round_positive a = Finite r \<and> 0 \<le> r \<and> representable r)"
proof -
  have "0 < scale a (- quantum_exponent a)"
    using assms by (simp add: scale_powi)
  then have "0 \<le> \<lfloor>scale a (- quantum_exponent a)\<rfloor>"
    by simp
  then have "0 \<le> round_half_even (scale a (- quantum_exponent a))"
    using round_half_even_ge_floor [of "scale a (- quantum_exponent a)"] by linarith
  then have "0 \<le> scale (of_int (round_half_even (scale a (- quantum_exponent a))))
      (quantum_exponent a)"
    by (simp add: scale_powi)
  then show ?thesis
    using representable_scale [OF quantum_exponent_ge]
    by (simp add: round_positive_def)
qed

lemma scaled_ge_one:
  assumes "0 < a" and "representable a"
  shows "1 \<le> scale a (- quantum_exponent a)"
proof (cases "binade a \<le> - 1022")
  case True
  then have k: "quantum_exponent a = - int subnormal_bits"
    by (simp add: quantum_exponent_def subnormal_bits_def)
  from assms(2) obtain N :: int where N: "a = of_int N / 2 ^ subnormal_bits"
    unfolding representable_def by blast
  have "scale a (- quantum_exponent a) = a * 2 ^ subnormal_bits"
    by (simp add: k scale_def)
  also have "\<dots> = of_int N"
    by (subst N) simp
  finally have "scale a (- quantum_exponent a) = of_int N" .
  moreover have "0 < N"
    using assms(1) N by (simp add: zero_less_divide_iff)
  ultimately show ?thesis by simp
next
  case False
  then have k: "- quantum_exponent a = 52 - binade a"
    by (simp add: quantum_exponent_def)
  have "scale a (- quantum_exponent a) = a * 2 powi (- binade a) * 2 ^ 52"
    unfolding k scale_powi by (simp add: power_int_diff power_int_minus field_simps)
  moreover have "1 \<le> a * 2 powi (- binade a)"
    using binade_lower [OF assms(1)] by (simp add: power_int_minus field_simps)
  ultimately show ?thesis
    by (smt (verit) mult_le_cancel_right1 one_le_numeral one_le_power mult_mono zero_le_one)
qed

lemma round_positive_positive:
  assumes "0 < a" and "representable a"
  shows "positive (round_positive a)"
proof -
  have "1 \<le> \<lfloor>scale a (- quantum_exponent a)\<rfloor>"
    using scaled_ge_one [OF assms] by (simp add: le_floor_iff)
  then have "1 \<le> round_half_even (scale a (- quantum_exponent a))"
    using round_half_even_ge_floor [of "scale a (- quantum_exponent a)"] by linarith
  then have "0 < scale (of_int (round_half_even (scale a (- quantum_exponent a))))
      (quantum_exponent a)"
    by (simp add: scale_powi)
  then show ?thesis
    by (simp add: round_positive_def positive_def)
qed

lemma round_double_hours_value: "0 \<le> x \<Longrightarrow> hours_value (round_double x)"
proof (cases "x = 0")
  case True
  have "representable 0"
    unfolding representable_def by (rule exI [of _ 0]) simp
  with True show ?thesis
    by (simp add: round_double_def hours_value_def)
next
  case False
  assume "0 \<le> x"
  with False have "0 < x" by simp
  with round_positive_cases [of x] show ?thesis
    by (auto simp: round_double_def hours_value_def)
qed

lemma hours_value_dmul: "hours_value v \<Longrightarrow> 0 < c \<Longrightarrow> hours_value (dmul v (Finite c))"
proof (cases v)
  case (Finite r)
  assume "hours_value v" "0 < c"
  with Finite have "0 \<le> r * c"
    by (simp add: hours_value_def)
  with Finite show ?thesis
    by (simp add: round_double_hours_value)
qed (simp_all add: hours_value_def)

lemma hours_value_ddiv: "hours_value v \<Longrightarrow> 0 < c \<Longrightarrow> hours_value (ddiv v (Finite c))"
proof (cases v)
  case (Finite r)
  assume "hours_value v" "0 < c"
  with Finite have "0 \<le> r / c" "c \<noteq> 0"
    by (simp_all add: hours_value_def)
  with Finite show ?thesis
    by (simp add: round_double_hours_value)
qed (simp_all add: hours_value_def)

lemma representable_diff: "representable a \<Longrightarrow> representable b \<Longrightarrow> representable (a - b)"
proof -
  assume "representable a" "representable b"
  then obtain M N :: int where "a = of_int M / 2 ^ subnormal_bits" "b = of_int N / 2 ^ subnormal_bits"
    unfolding representable_def by blast
  then have "a - b = of_int (M - N) / 2 ^ subnormal_bits"
    by (simp add: diff_divide_distrib)
  then show ?thesis
    unfolding representable_def by blast
qed

lemma positive_round_double:
  assumes "representable x"
  shows "positive (round_double x) \<longleftrightarrow> 0 < x"
proof (cases "0 < x")
  case True
  with round_positive_positive [OF True assms] show ?thesis
    by (simp add: round_double_def)
next
  case False
  show ?thesis
  proof (cases "x = 0")
    case True
    then show ?thesis by (simp add: round_double_def positive_def)
  next
    case nz: False
    with False have "0 < - x" by simp
    from round_positive_cases [OF this] False nz show ?thesis
      by (auto simp: round_double_def positive_def)
  qed
qed

lemma positive_dsub:
  assumes "hours_value x" and "hours_value y"
  shows "positive (dsub y x) \<longleftrightarrow> dless x y"
  using assms
  by (auto simp: hours_value_def positive_round_double representable_diff)
    (simp_all add: positive_def)

section \<open>Properties of the benefit parser\<close>

lemmas string_evals = ascii_def toLowerCase_def lower_unit_def is_digit_def is_white_space_def
  trim_def trimStart_def trimEnd_def substring_def

lemmas number_evals = round_double_def round_positive_def quantum_exponent_def binade_def
  compute_floorlog scale_def round_half_even_def positive_def

lemma startsWith_prefix: "startsWith s k \<longleftrightarrow> prefix k s"
  by (induction s k rule: startsWith.induct) auto

lemma str_includes_sublist: "str_includes t k \<longleftrightarrow> sublist k t"
  by (induction t) (simp_all add: startsWith_prefix sublist_Cons_right)

lemmas parser_evals = parseBenefitToWeeklyHours_def match_number_def parseFloat_def
  decimal_value_def digits_value_def hour_unit_def minute_unit_def per_day_def per_month_def
  str_includes_sublist [symmetric]

lemma decimal_value_nonneg: "0 \<le> decimal_value m"
  by (simp add: decimal_value_def split: list.splits)

lemma parseFloat_hours_value: "hours_value (parseFloat m)"
  by (simp add: parseFloat_def round_double_hours_value decimal_value_nonneg)

lemma match_number_None: "match_number s = None \<longleftrightarrow> (\<forall>c\<in>set s. \<not> is_digit c)"
proof -
  have "match_number s = None \<longleftrightarrow> dropWhile (\<lambda>c. \<not> is_digit c) s = []"
  proof (cases "dropWhile (\<lambda>c. \<not> is_digit c) s")
    case Nil
    show ?thesis unfolding match_number_def Nil by simp
  next
    case (Cons d r)
    show ?thesis unfolding match_number_def Cons by (simp split: list.split)
  qed
  then show ?thesis
    by (simp add: dropWhile_eq_Nil_conv)
qed

lemma no_digit_ahead:
  "\<not> starts_with_digit q \<Longrightarrow> takeWhile is_digit q = [] \<and> dropWhile is_digit q = q"
  by (cases q) (simp_all add: starts_with_digit_def)

lemma takeWhile_Nil_ahead: "takeWhile is_digit q \<noteq> [] \<longleftrightarrow> starts_with_digit q"
  by (cases q) (simp_all add: starts_with_digit_def)

lemma digits_then:
  assumes "ip \<noteq> []" and "\<forall>c\<in>set ip. is_digit c" and "\<not> starts_with_digit rest"
    and "\<forall>c\<in>set pre. \<not> is_digit c"
  shows "dropWhile (\<lambda>c. \<not> is_digit c) (pre @ ip @ rest) = ip @ rest"
    and "takeWhile is_digit (ip @ rest) = ip"
    and "dropWhile is_digit (ip @ rest) = rest"
proof -
  from assms(1,2) obtain d r where ip: "ip = d # r" "is_digit d"
    by (cases ip) auto
  have "dropWhile (\<lambda>c. \<not> is_digit c) (pre @ ip @ rest)
      = dropWhile (\<lambda>c. \<not> is_digit c) (ip @ rest)"
    using assms(4) by (simp add: dropWhile_append2)
  with ip show "dropWhile (\<lambda>c. \<not> is_digit c) (pre @ ip @ rest) = ip @ rest"
    by simp
  show "takeWhile is_digit (ip @ rest) = ip"
    using assms(2,3) by (simp add: takeWhile_append2 no_digit_ahead)
  show "dropWhile is_digit (ip @ rest) = rest"
    using assms(2,3) by (simp add: dropWhile_append2 no_digit_ahead)
qed

lemma first_decimal_match:
  assumes "first_decimal b m"
  shows "match_number b = Some m"
proof -
  from assms obtain pre post ip where
    b: "b = pre @ m @ post" and pre: "\<forall>c\<in>set pre. \<not> is_digit c"
    and ip: "ip \<noteq> []" "\<forall>c\<in>set ip. is_digit c" and post: "\<not> starts_with_digit post"
    and m: "m = ip \<and> \<not> (\<exists>q. post = 46 # q \<and> starts_with_digit q) \<or>
         (\<exists>fp. fp \<noteq> [] \<and> (\<forall>c\<in>set fp. is_digit c) \<and> m = ip @ [46] @ fp)"
    unfolding first_decimal_def by blast
  from ip obtain d r where dr: "ip = d # r"
    by (cases ip) auto
  from m show ?thesis
  proof
    assume a: "m = ip \<and> \<not> (\<exists>q. post = 46 # q \<and> starts_with_digit q)"
    note f = digits_then [OF ip post pre]
    have "match_number (pre @ ip @ post) = Some ip"
      unfolding match_number_def f(1)
      using a f(2,3) dr by (cases post) (auto simp: takeWhile_Nil_ahead)
    with a b show ?thesis by simp
  next
    assume "\<exists>fp. fp \<noteq> [] \<and> (\<forall>c\<in>set fp. is_digit c) \<and> m = ip @ [46] @ fp"
    then obtain fp where fp: "fp \<noteq> []" "\<forall>c\<in>set fp. is_digit c" and mm: "m = ip @ [46] @ fp"
      by blast
    have nd: "\<not> starts_with_digit (46 # fp @ post)"
      by (simp add: starts_with_digit_def is_digit_def)
    note f = digits_then [OF ip nd pre]
    have t: "takeWhile is_digit (fp @ post) = fp"
      using fp(2) post by (simp add: takeWhile_append2 no_digit_ahead)
    have "match_number (pre @ ip @ 46 # fp @ post) = Some (ip @ [46] @ fp)"
      unfolding match_number_def f(1)
      using f(2,3) dr t fp(1) by simp
    with mm b show ?thesis by simp
  qed
qed

lemma not_ahead_dropWhile: "\<not> starts_with_digit (dropWhile is_digit q)"
proof (cases "dropWhile is_digit q")
  case Nil
  show ?thesis unfolding Nil by (simp add: starts_with_digit_def)
next
  case (Cons c r)
  then have "dropWhile is_digit q \<noteq> []" by simp
  from hd_dropWhile [OF this] have "\<not> is_digit c"
    unfolding Cons by simp
  then show ?thesis
    unfolding Cons by (simp add: starts_with_digit_def)
qed

lemma match_first_decimal:
  assumes "match_number b = Some m"
  shows "first_decimal b m"
proof -
  define pre where "pre = takeWhile (\<lambda>c. \<not> is_digit c) b"
  define rest where "rest = dropWhile (\<lambda>c. \<not> is_digit c) b"
  have b: "b = pre @ rest" and pre: "\<forall>c\<in>set pre. \<not> is_digit c"
    by (auto simp: pre_def rest_def dest: set_takeWhileD)
  from assms obtain d r where dr: "rest = d # r"
    unfolding match_number_def rest_def [symmetric] by (cases rest) simp_all
  then have "rest \<noteq> []" by simp
  from hd_dropWhile [of "\<lambda>c. \<not> is_digit c" b] this dr have d: "is_digit d"
    by (simp add: rest_def)
  define ip where "ip = takeWhile is_digit rest"
  define tl1 where "tl1 = dropWhile is_digit rest"
  have ip: "ip \<noteq> []" "\<forall>c\<in>set ip. is_digit c" and r1: "rest = ip @ tl1"
    and t1: "\<not> starts_with_digit tl1"
    using d dr by (auto simp: ip_def tl1_def not_ahead_dropWhile dest: set_takeWhileD)
  have mm: "match_number b =
      (case tl1 of [] \<Rightarrow> Some ip
       | p # q \<Rightarrow> if p = 46 \<and> takeWhile is_digit q \<noteq> []
           then Some (ip @ [46] @ takeWhile is_digit q) else Some ip)"
    unfolding match_number_def rest_def [symmetric] ip_def tl1_def dr by simp
  show ?thesis
  proof (cases "\<exists>q. tl1 = 46 # q \<and> starts_with_digit q")
    case True
    then obtain q where q: "tl1 = 46 # q" "starts_with_digit q" by blast
    define fp where "fp = takeWhile is_digit q"
    have fp: "fp \<noteq> []" "\<forall>c\<in>set fp. is_digit c"
      using q(2) by (auto simp: fp_def takeWhile_Nil_ahead dest: set_takeWhileD)
    from assms mm q fp have m: "m = ip @ [46] @ fp"
      by (simp add: fp_def)
    have "b = pre @ m @ dropWhile is_digit q"
      unfolding b r1 m q(1) fp_def by simp
    with pre ip fp m not_ahead_dropWhile [of q] show ?thesis
      unfolding first_decimal_def by blast
  next
    case False
    with assms mm have m: "m = ip"
      by (cases tl1) (auto simp: takeWhile_Nil_ahead split: if_splits)
    have "b = pre @ m @ tl1"
      unfolding b r1 m by simp
    with pre ip t1 False m show ?thesis
      unfolding first_decimal_def by blast
  qed
qed

lemma match_number_first_decimal: "match_number b = Some m \<longleftrightarrow> first_decimal b m"
  using first_decimal_match match_first_decimal by blast

lemma parse_cases:
  assumes "match_number b = Some m"
  shows "parseBenefitToWeeklyHours b =
     (if hour_unit (toLowerCase b) then
        (if per_day (toLowerCase b) then dmul (parseFloat m) (Finite 5)
         else if per_month (toLowerCase b) then ddiv (parseFloat m) (Finite 4)
         else parseFloat m)
      else if minute_unit (toLowerCase b) then
        (if per_day (toLowerCase b) then dmul (ddiv (parseFloat m) (Finite 60)) (Finite 5)
         else if per_month (toLowerCase b)
           then ddiv (ddiv (parseFloat m) (Finite 60)) (Finite 4)
         else ddiv (parseFloat m) (Finite 60))
      else Finite 0)"
  using assms
  by (simp add: parseBenefitToWeeklyHours_def hour_unit_def minute_unit_def per_day_def
      per_month_def str_includes_sublist Let_def)

lemma parse_hours_value: "hours_value (parseBenefitToWeeklyHours b)"
proof (cases "match_number b")
  case None
  have "hours_value (Finite 0)"
    using round_double_hours_value [of 0] by (simp add: round_double_def)
  with None show ?thesis
    by (simp add: parseBenefitToWeeklyHours_def)
next
  case (Some m)
  have z: "hours_value (Finite 0)"
    using round_double_hours_value [of 0] by (simp add: round_double_def)
  show ?thesis
    unfolding parse_cases [OF Some]
    by (simp add: z parseFloat_hours_value hours_value_dmul hours_value_ddiv)
qed

text \<open>
  C2. Let \<open>m\<close> be the first decimal number of the benefit string, with the number
  \<open>parseFloat m\<close>, its decimal value rounded to a double. When the lowercased text contains an hour unit ("hour" or "hr"), the
  parser returns that number times 5 if the text contains a day period ("per day" or
  "daily"), the number divided by 4 if it contains no day period but a month period
  ("per month" or "monthly"), and the number itself if it contains neither. When the text
  contains no hour unit but a minute unit ("minute" or "min"), the same holds for the
  number divided by 60. The products and quotients are those of the language, on doubles.
  The three strings of the specification give 10, 2 and 2.5.
\<close>

theorem parse_weekly_hours_periods:
  "(first_decimal b m \<and> hour_unit (toLowerCase b) \<longrightarrow>
      (per_day (toLowerCase b) \<longrightarrow>
         parseBenefitToWeeklyHours b = dmul (parseFloat m) (Finite 5)) \<and>
      (\<not> per_day (toLowerCase b) \<and> per_month (toLowerCase b) \<longrightarrow>
         parseBenefitToWeeklyHours b = ddiv (parseFloat m) (Finite 4)) \<and>
      (\<not> per_day (toLowerCase b) \<and> \<not> per_month (toLowerCase b) \<longrightarrow>
         parseBenefitToWeeklyHours b = parseFloat m)) \<and>
   (first_decimal b m \<and> \<not> hour_unit (toLowerCase b) \<and>
      minute_unit (toLowerCase b) \<longrightarrow>
      (per_day (toLowerCase b) \<longrightarrow>
         parseBenefitToWeeklyHours b = dmul (ddiv (parseFloat m) (Finite 60)) (Finite 5)) \<and>
      (\<not> per_day (toLowerCase b) \<and> per_month (toLowerCase b) \<longrightarrow>
         parseBenefitToWeeklyHours b = ddiv (ddiv (parseFloat m) (Finite 60)) (Finite 4)) \<and>
      (\<not> per_day (toLowerCase b) \<and> \<not> per_month (toLowerCase b) \<longrightarrow>
         parseBenefitToWeeklyHours b = ddiv (parseFloat m) (Finite 60))) \<and>
   parseBenefitToWeeklyHours (ascii ''Saves 2 hours per day'') = Finite 10 \<and>
   parseBenefitToWeeklyHours (ascii ''Saves 8 hours per month'') = Finite 2 \<and>
   parseBenefitToWeeklyHours (ascii ''Saves 30 minutes daily'') = Finite (5 / 2)"
proof -
  have ex1: "parseBenefitToWeeklyHours (ascii ''Saves 2 hours per day'') = Finite 10"
    by (simp add: string_evals parser_evals number_evals)
  have ex2: "parseBenefitToWeeklyHours (ascii ''Saves 8 hours per month'') = Finite 2"
    by (simp add: string_evals parser_evals number_evals)
  have ex3: "parseBenefitToWeeklyHours (ascii ''Saves 30 minutes daily'') = Finite (5 / 2)"
    by (simp add: string_evals parser_evals number_evals)
  show ?thesis
    using ex1 ex2 ex3 by (auto simp: parse_cases dest!: first_decimal_match)
qed

theorem parse_weekly_hours_periods_witness:
  "(first_decimal (ascii ''Saves 3 hours'') (ascii ''3'')
      \<and> hour_unit (toLowerCase (ascii ''Saves 3 hours''))
      \<and> \<not> per_day (toLowerCase (ascii ''Saves 3 hours''))
      \<and> \<not> per_month (toLowerCase (ascii ''Saves 3 hours''))
      \<and> parseBenefitToWeeklyHours (ascii ''Saves 3 hours'') = Finite 3) \<and>
   (first_decimal (ascii ''Up to 1.5 Hours Daily'') (ascii ''1.5'')
      \<and> hour_unit (toLowerCase (ascii ''Up to 1.5 Hours Daily''))
      \<and> per_day (toLowerCase (ascii ''Up to 1.5 Hours Daily''))
      \<and> parseBenefitToWeeklyHours (ascii ''Up to 1.5 Hours Daily'') = Finite (15 / 2)) \<and>
   (first_decimal (ascii ''12 hrs monthly'') (ascii ''12'')
      \<and> hour_unit (toLowerCase (ascii ''12 hrs monthly''))
      \<and> \<not> per_day (toLowerCase (ascii ''12 hrs monthly''))
      \<and> per_month (toLowerCase (ascii ''12 hrs monthly''))
      \<and> parseBenefitToWeeklyHours (ascii ''12 hrs monthly'') = Finite 3) \<and>
   (first_decimal (ascii ''Saves 90 minutes'') (ascii ''90'')
      \<and> \<not> hour_unit (toLowerCase (ascii ''Saves 90 minutes''))
      \<and> minute_unit (toLowerCase (ascii ''Saves 90 minutes''))
      \<and> \<not> per_day (toLowerCase (ascii ''Saves 90 minutes''))
      \<and> \<not> per_month (toLowerCase (ascii ''Saves 90 minutes''))
      \<and> parseBenefitToWeeklyHours (ascii ''Saves 90 minutes'') = Finite (3 / 2)) \<and>
   (first_decimal (ascii ''5 minutes daily'') (ascii ''5'')
      \<and> \<not> hour_unit (toLowerCase (ascii ''5 minutes daily''))
      \<and> minute_unit (toLowerCase (ascii ''5 minutes daily''))
      \<and> per_day (toLowerCase (ascii ''5 minutes daily''))
      \<and> parseBenefitToWeeklyHours (ascii ''5 minutes daily'') = Finite (7505999378950826 / 2 ^ 54)) \<and>
   (first_decimal (ascii ''120 minutes per month'') (ascii ''120'')
      \<and> \<not> hour_unit (toLowerCase (ascii ''120 minutes per month''))
      \<and> minute_unit (toLowerCase (ascii ''120 minutes per month''))
      \<and> \<not> per_day (toLowerCase (ascii ''120 minutes per month''))
      \<and> per_month (toLowerCase (ascii ''120 minutes per month''))
      \<and> parseBenefitToWeeklyHours (ascii ''120 minutes per month'') = Finite (1 / 2))"
proof -
  have h1: "first_decimal (ascii ''Saves 3 hours'') (ascii ''3'')
      \<and> hour_unit (toLowerCase (ascii ''Saves 3 hours''))
      \<and> \<not> per_day (toLowerCase (ascii ''Saves 3 hours''))
      \<and> \<not> per_month (toLowerCase (ascii ''Saves 3 hours''))"
    by (simp add: match_number_first_decimal [symmetric] string_evals parser_evals)
  have h2: "first_decimal (ascii ''Up to 1.5 Hours Daily'') (ascii ''1.5'')
      \<and> hour_unit (toLowerCase (ascii ''Up to 1.5 Hours Daily''))
      \<and> per_day (toLowerCase (ascii ''Up to 1.5 Hours Daily''))"
    by (simp add: match_number_first_decimal [symmetric] string_evals parser_evals)
  have h3: "first_decimal (ascii ''12 hrs monthly'') (ascii ''12'')
      \<and> hour_unit (toLowerCase (ascii ''12 hrs monthly''))
      \<and> \<not> per_day (toLowerCase (ascii ''12 hrs monthly''))
      \<and> per_month (toLowerCase (ascii ''12 hrs monthly''))"
    by (simp add: match_number_first_decimal [symmetric] string_evals parser_evals)
  have h4: "first_decimal (ascii ''Saves 90 minutes'') (ascii ''90'')
      \<and> \<not> hour_unit (toLowerCase (ascii ''Saves 90 minutes''))
      \<and> minute_unit (toLowerCase (ascii ''Saves 90 minutes''))
      \<and> \<not> per_day (toLowerCase (ascii ''Saves 90 minutes''))
      \<and> \<not> per_month (toLowerCase (ascii ''Saves 90 minutes''))"
    by (simp add: match_number_first_decimal [symmetric] string_evals parser_evals)
  have h5: "first_decimal (ascii ''5 minutes daily'') (ascii ''5'')
      \<and> \<not> hour_unit (toLowerCase (ascii ''5 minutes daily''))
      \<and> minute_unit (toLowerCase (ascii ''5 minutes daily''))
      \<and> per_day (toLowerCase (ascii ''5 minutes daily''))"
    by (simp add: match_number_first_decimal [symmetric] string_evals parser_evals)
  have h6: "first_decimal (ascii ''120 minutes per month'') (ascii ''120'')
      \<and> \<not> hour_unit (toLowerCase (ascii ''120 minutes per month''))
      \<and> minute_unit (toLowerCase (ascii ''120 minutes per month''))
      \<and> \<not> per_day (toLowerCase (ascii ''120 minutes per month''))
      \<and> per_month (toLowerCase (ascii ''120 minutes per month''))"
    by (simp add: match_number_first_decimal [symmetric] string_evals parser_evals)
  have v: "parseFloat (ascii ''3'') = Finite 3" "parseFloat (ascii ''1.5'') = Finite (3 / 2)" "parseFloat (ascii ''12'') = Finite 12" "parseFloat (ascii ''90'') = Finite 90" "parseFloat (ascii ''5'') = Finite 5" "parseFloat (ascii ''120'') = Finite 120"
    by (simp_all add: string_evals parser_evals number_evals)
  from h1 parse_weekly_hours_periods [of "ascii ''Saves 3 hours''" "ascii ''3''"]
  have r1: "parseBenefitToWeeklyHours (ascii ''Saves 3 hours'') = Finite 3"
    by (simp add: v number_evals)
  from h2 parse_weekly_hours_periods [of "ascii ''Up to 1.5 Hours Daily''" "ascii ''1.5''"]
  have r2: "parseBenefitToWeeklyHours (ascii ''Up to 1.5 Hours Daily'') = Finite (15 / 2)"
    by (simp add: v number_evals)
  from h3 parse_weekly_hours_periods [of "ascii ''12 hrs monthly''" "ascii ''12''"]
  have r3: "parseBenefitToWeeklyHours (ascii ''12 hrs monthly'') = Finite 3"
    by (simp add: v number_evals)
  from h4 parse_weekly_hours_periods [of "ascii ''Saves 90 minutes''" "ascii ''90''"]
  have r4: "parseBenefitToWeeklyHours (ascii ''Saves 90 minutes'') = Finite (3 / 2)"
    by (simp add: v number_evals)
  from h5 parse_weekly_hours_periods [of "ascii ''5 minutes daily''" "ascii ''5''"]
  have r5: "parseBenefitToWeeklyHours (ascii ''5 minutes daily'') = Finite (7505999378950826 / 2 ^ 54)"
    by (simp add: v number_evals)
  from h6 parse_weekly_hours_periods [of "ascii ''120 minutes per month''" "ascii ''120''"]
  have r6: "parseBenefitToWeeklyHours (ascii ''120 minutes per month'') = Finite (1 / 2)"
    by (simp add: v number_evals)
  from h1 h2 h3 h4 h5 h6 r1 r2 r3 r4 r5 r6 show ?thesis
    by blast
qed

text \<open>
  C6. The parser is a total function and its result is a number that is at least 0,
  never NaN. The result is 0 when the benefit string has no digit, so that the pattern
  finds no number, and 0 when the lowercased text contains none of the unit words "hour",
  "hr", "minute" and "min", whether or not the string has a number.
\<close>

theorem parse_weekly_hours_nonneg:
  "dle (Finite 0) (parseBenefitToWeeklyHours b) \<and>
   ((\<forall>c\<in>set b. \<not> is_digit c) \<longrightarrow> parseBenefitToWeeklyHours b = Finite 0) \<and>
   (\<not> hour_unit (toLowerCase b) \<and> \<not> minute_unit (toLowerCase b) \<longrightarrow>
      parseBenefitToWeeklyHours b = Finite 0)"
proof -
  have "dle (Finite 0) (parseBenefitToWeeklyHours b)"
    using parse_hours_value [of b] by (auto simp: hours_value_def)
  moreover have "parseBenefitToWeeklyHours b = Finite 0" if "\<forall>c\<in>set b. \<not> is_digit c"
    using that match_number_None [of b] by (simp add: parseBenefitToWeeklyHours_def)
  moreover have "parseBenefitToWeeklyHours b = Finite 0"
    if "\<not> hour_unit (toLowerCase b) \<and> \<not> minute_unit (toLowerCase b)"
  proof (cases "match_number b")
    case None
    then show ?thesis by (simp add: parseBenefitToWeeklyHours_def)
  next
    case (Some m)
    from that show ?thesis by (simp add: parse_cases [OF Some])
  qed
  ultimately show ?thesis by blast
qed

theorem parse_weekly_hours_nonneg_witness:
  "\<not> (\<exists>c\<in>set (ascii ''Saves hours every day''). is_digit c) \<and>
   parseBenefitToWeeklyHours (ascii ''Saves hours every day'') = Finite 0 \<and>
   \<not> hour_unit (toLowerCase (ascii ''Cuts 3 errors a week'')) \<and>
   \<not> minute_unit (toLowerCase (ascii ''Cuts 3 errors a week'')) \<and>
   (\<exists>c\<in>set (ascii ''Cuts 3 errors a week''). is_digit c) \<and>
   parseBenefitToWeeklyHours (ascii ''Cuts 3 errors a week'') = Finite 0"
proof -
  have h1: "\<forall>c\<in>set (ascii ''Saves hours every day''). \<not> is_digit c"
    by (simp add: string_evals)
  have h2: "\<not> hour_unit (toLowerCase (ascii ''Cuts 3 errors a week'')) \<and>
      \<not> minute_unit (toLowerCase (ascii ''Cuts 3 errors a week''))"
    by (simp add: string_evals parser_evals)
  have h3: "\<exists>c\<in>set (ascii ''Cuts 3 errors a week''). is_digit c"
    by (simp add: string_evals)
  from h1 h2 h3 parse_weekly_hours_nonneg [of "ascii ''Saves hours every day''"]
    parse_weekly_hours_nonneg [of "ascii ''Cuts 3 errors a week''"]
  show ?thesis by blast
qed

section \<open>Properties of the chart labels\<close>

text \<open>
  C9, as stated, fails. The label below has 30 code units and starts with a space: the
  chart shows it without the space, and cutting only the whitespace at the end of its
  first 20 code units would keep the space.
\<close>

theorem truncateLabel_trailing_only_counterexample:
  "20 < length (ascii '' Quarterly sales report emails'') \<and>
   truncateLabel (ascii '' Quarterly sales report emails'') 20 = ascii ''Quarterly sales rep...'' \<and>
   truncateLabel (ascii '' Quarterly sales report emails'') 20
     \<noteq> trimEnd (take 20 (ascii '' Quarterly sales report emails'')) @ ascii ''...''"
  by (simp add: truncateLabel_def string_evals)

text \<open>
  C9, amended. The chart truncates a label at 20 code units: a label of at most 20 code
  units is returned as it is, and for a longer label the result is its first 20 code
  units with the whitespace removed at both ends, the start as well as the end, followed
  by three full stops.
\<close>

theorem truncateLabel_twenty:
  "(length label \<le> 20 \<longrightarrow> truncateLabel label 20 = label) \<and>
   (20 < length label \<longrightarrow> truncateLabel label 20 = trim (take 20 label) @ ascii ''...'')"
  by (simp add: truncateLabel_def substring_def)

theorem truncateLabel_twenty_witness:
  "length (ascii ''Email triage'') \<le> 20 \<and>
   truncateLabel (ascii ''Email triage'') 20 = ascii ''Email triage'' \<and>
   20 < length (ascii '' Quarterly sales report emails'') \<and>
   truncateLabel (ascii '' Quarterly sales report emails'') 20 = ascii ''Quarterly sales rep...''"
proof -
  have h1: "length (ascii ''Email triage'') \<le> 20"
    by (simp add: ascii_def)
  have h2: "20 < length (ascii '' Quarterly sales report emails'')"
    by (simp add: ascii_def)
  have t: "trim (take 20 (ascii '' Quarterly sales report emails'')) = ascii ''Quarterly sales rep''"
    by (simp add: string_evals)
  from h1 h2 t truncateLabel_twenty [of "ascii ''Email triage''"]
    truncateLabel_twenty [of "ascii '' Quarterly sales report emails''"]
  show ?thesis by (simp add: ascii_def)
qed

section \<open>Properties of the chart data\<close>

lemma dless_neq: "dless x y \<Longrightarrow> x \<noteq> y"
  by (induction x y rule: dless.induct) simp_all

lemma dless_dle: "dless x y \<Longrightarrow> dle x y"
  by (induction x y rule: dless.induct) simp_all

lemma not_dless_dle: "hours_value x \<Longrightarrow> hours_value y \<Longrightarrow> \<not> dless x y \<Longrightarrow> dle y x"
  by (auto simp: hours_value_def)

lemma dle_trans:
  "hours_value x \<Longrightarrow> hours_value y \<Longrightarrow> hours_value z \<Longrightarrow> dle x y \<Longrightarrow> dle y z \<Longrightarrow> dle x z"
  by (auto simp: hours_value_def)

lemma set_sort_insert: "set (sort_insert cmp x ys) = insert x (set ys)"
  by (induction ys) auto

lemma mset_sort_insert: "mset (sort_insert cmp x ys) = add_mset x (mset ys)"
  by (induction ys) auto

lemma mset_array_sort: "mset (array_sort cmp xs) = mset xs"
  by (induction xs) (simp_all add: array_sort_def mset_sort_insert)

lemma set_array_sort: "set (array_sort cmp xs) = set xs"
  using mset_array_sort [of cmp xs] by (metis set_mset_mset)

lemma sorted_sort_insert:
  assumes "\<forall>z\<in>set (x # ys). hours_value (f z)"
    and "sorted_wrt (\<lambda>a b. dle (f b) (f a)) ys"
  shows "sorted_wrt (\<lambda>a b. dle (f b) (f a)) (sort_insert (\<lambda>a b. dsub (f b) (f a)) x ys)"
  using assms
proof (induction ys)
  case Nil
  then show ?case by simp
next
  case (Cons y ys)
  show ?case
  proof (cases "dless (f x) (f y)")
    case True
    with Cons show ?thesis
      by (auto simp: positive_dsub set_sort_insert dless_dle)
  next
    case False
    with Cons.prems have xy: "dle (f y) (f x)"
      by (simp add: not_dless_dle)
    have "dle (f z) (f x)" if "z \<in> set ys" for z
      using that Cons.prems xy dle_trans [of "f z" "f y" "f x"] by auto
    with False xy Cons.prems show ?thesis
      by (simp add: positive_dsub)
  qed
qed

lemma sorted_array_sort:
  assumes "\<forall>z\<in>set xs. hours_value (f z)"
  shows "sorted_wrt (\<lambda>a b. dle (f b) (f a)) (array_sort (\<lambda>a b. dsub (f b) (f a)) xs)"
  using assms
proof (induction xs)
  case Nil
  then show ?case by (simp add: array_sort_def)
next
  case (Cons x xs)
  then have "sorted_wrt (\<lambda>a b. dle (f b) (f a)) (array_sort (\<lambda>a b. dsub (f b) (f a)) xs)"
    by simp
  moreover have "\<forall>z\<in>set (x # array_sort (\<lambda>a b. dsub (f b) (f a)) xs). hours_value (f z)"
    using Cons.prems by (simp add: set_array_sort)
  ultimately show ?case
    using sorted_sort_insert [of x "array_sort (\<lambda>a b. dsub (f b) (f a)) xs" f]
    by (simp add: array_sort_def)
qed

lemma filter_sort_insert:
  assumes "\<forall>z\<in>set (x # ys). hours_value (f z)"
  shows "filter (\<lambda>y. f y = k) (sort_insert (\<lambda>a b. dsub (f b) (f a)) x ys)
         = filter (\<lambda>y. f y = k) (x # ys)"
  using assms by (induction ys) (auto simp: positive_dsub dest: dless_neq)

lemma filter_array_sort:
  assumes "\<forall>z\<in>set xs. hours_value (f z)"
  shows "filter (\<lambda>y. f y = k) (array_sort (\<lambda>a b. dsub (f b) (f a)) xs)
         = filter (\<lambda>y. f y = k) xs"
  using assms
proof (induction xs)
  case Nil
  then show ?case by (simp add: array_sort_def)
next
  case (Cons x xs)
  have "\<forall>z\<in>set (x # array_sort (\<lambda>a b. dsub (f b) (f a)) xs). hours_value (f z)"
    using Cons.prems by (simp add: set_array_sort)
  from filter_sort_insert [OF this, of k] Cons show ?case
    by (simp add: array_sort_def)
qed

lemma chart_records_hours_value:
  "\<forall>z\<in>set (filter (\<lambda>r. positive (hoursSaved r)) (map chart_record ss)).
     hours_value (hoursSaved z)"
  by (auto simp: chart_record_def parse_hours_value)

text \<open>
  C4. For every sequence of suggestions, the chart data holds exactly the records built
  from the suggestions (the area, and the parser's number for the benefit) whose hours are
  above 0, so none with hours of 0 or less; it is in descending order of the hours; for
  every number, the records with that number of hours stand in the order the suggestions
  had; and the empty sequence, like \<open>null\<close>, gives the empty sequence.
\<close>

theorem chartData_ranking:
  "(\<forall>r\<in>set (chartData (Some ss)). positive (hoursSaved r)) \<and>
   mset (chartData (Some ss))
     = mset (filter (\<lambda>r. positive (hoursSaved r)) (map chart_record ss)) \<and>
   sorted_wrt (\<lambda>a b. dle (hoursSaved b) (hoursSaved a)) (chartData (Some ss)) \<and>
   (\<forall>k. filter (\<lambda>r. hoursSaved r = k) (chartData (Some ss))
        = filter (\<lambda>r. hoursSaved r = k)
            (filter (\<lambda>r. positive (hoursSaved r)) (map chart_record ss))) \<and>
   chartData (Some []) = [] \<and> chartData None = []"
proof -
  have m: "mset (chartData (Some ss))
      = mset (filter (\<lambda>r. positive (hoursSaved r)) (map chart_record ss))"
    by (simp add: chartData_def mset_array_sort)
  have "set (chartData (Some ss))
      = set (filter (\<lambda>r. positive (hoursSaved r)) (map chart_record ss))"
    by (simp add: chartData_def set_array_sort)
  then have p: "\<forall>r\<in>set (chartData (Some ss)). positive (hoursSaved r)"
    by auto
  have s: "sorted_wrt (\<lambda>a b. dle (hoursSaved b) (hoursSaved a)) (chartData (Some ss))"
    unfolding chartData_def option.case
    by (rule sorted_array_sort) (rule chart_records_hours_value)
  have t: "\<forall>k. filter (\<lambda>r. hoursSaved r = k) (chartData (Some ss))
        = filter (\<lambda>r. hoursSaved r = k)
            (filter (\<lambda>r. positive (hoursSaved r)) (map chart_record ss))"
    unfolding chartData_def option.case
    by (rule allI) (rule filter_array_sort, rule chart_records_hours_value)
  have e: "chartData (Some []) = [] \<and> chartData None = []"
    by (simp add: chartData_def array_sort_def)
  from p m s t e show ?thesis by blast
qed

lemma sample_chart_records:
  "map chart_record sample_suggestions
     = [\<lparr>area = ascii ''Stand-up notes'', hoursSaved = Finite (7505999378950826 / 2 ^ 54)\<rparr>,
        \<lparr>area = ascii ''Reports'', hoursSaved = Finite (7505999378950827 / 2 ^ 54)\<rparr>,
        \<lparr>area = ascii ''Inbox'', hoursSaved = Finite 10\<rparr>,
        \<lparr>area = ascii ''Reviews'', hoursSaved = Finite 0\<rparr>,
        \<lparr>area = ascii ''Posting'', hoursSaved = Finite 10\<rparr>]"
  by (simp add: sample_suggestions_def chart_record_def string_evals parser_evals number_evals)

lemma sample_chartData:
  "chartData (Some sample_suggestions)
     = [\<lparr>area = ascii ''Inbox'', hoursSaved = Finite 10\<rparr>,
        \<lparr>area = ascii ''Posting'', hoursSaved = Finite 10\<rparr>,
        \<lparr>area = ascii ''Reports'', hoursSaved = Finite (7505999378950827 / 2 ^ 54)\<rparr>,
        \<lparr>area = ascii ''Stand-up notes'', hoursSaved = Finite (7505999378950826 / 2 ^ 54)\<rparr>]"
  unfolding chartData_def option.case sample_chart_records
  by (simp add: array_sort_def number_evals)

theorem chartData_ranking_witness:
  "chartData (Some sample_suggestions)
     = [\<lparr>area = ascii ''Inbox'', hoursSaved = Finite 10\<rparr>,
        \<lparr>area = ascii ''Posting'', hoursSaved = Finite 10\<rparr>,
        \<lparr>area = ascii ''Reports'', hoursSaved = Finite (7505999378950827 / 2 ^ 54)\<rparr>,
        \<lparr>area = ascii ''Stand-up notes'', hoursSaved = Finite (7505999378950826 / 2 ^ 54)\<rparr>] \<and>
   \<lparr>area = ascii ''Inbox'', hoursSaved = Finite 10\<rparr> \<in> set (chartData (Some sample_suggestions)) \<and>
   positive (hoursSaved \<lparr>area = ascii ''Inbox'', hoursSaved = Finite 10\<rparr>)"
proof -
  have i: "\<lparr>area = ascii ''Inbox'', hoursSaved = Finite 10\<rparr>
      \<in> set (chartData (Some sample_suggestions))"
    by (simp add: sample_chartData)
  with chartData_ranking [of sample_suggestions]
  have "positive (hoursSaved \<lparr>area = ascii ''Inbox'', hoursSaved = Finite 10\<rparr>)"
    by blast
  with sample_chartData i show ?thesis by blast
qed

section \<open>Properties of the directory summary\<close>

lemma tree_nodes_below:
  "(a, b, c) \<in> set (tree_nodes ign d True h) \<Longrightarrow> b"
proof (induction ign d "True" h rule: tree_nodes.induct)
  case (1 ign d n f)
  then show ?case by simp
next
  case (2 ign d n es x)
  then show ?case by fastforce
qed

lemma tree_nodes_deep:
  "nd \<in> set (tree_nodes ign d below h) \<Longrightarrow> maxDepth < int d \<Longrightarrow> \<not> listed maxDepth nd"
proof (induction ign d below h arbitrary: nd rule: tree_nodes.induct)
  case (1 ign d below n f)
  then show ?case by auto
next
  case (2 ign d below n es x)
  then show ?case by (cases nd) fastforce
qed

lemma filter_listed_below: "filter (listed maxDepth) (tree_nodes ign d True h) = []"
  by (auto simp: filter_empty_conv dest: tree_nodes_below)

lemma filter_listed_deep:
  "maxDepth < int d \<Longrightarrow> filter (listed maxDepth) (tree_nodes ign d below h) = []"
  by (simp add: filter_empty_conv tree_nodes_deep)

lemma filter_listed_children_below:
  "filter (listed maxDepth) (concat (map (tree_nodes ign d True) es)) = []"
  by (induction es) (simp_all add: filter_listed_below)

lemma traverse_fileTree:
  "traverse keyFiles checkExtension maxDepth h p depth st = Inr st' \<Longrightarrow>
     fileTree st' = fileTree st
       @ map node_line (filter (listed maxDepth) (tree_nodes (set IGNORE_DIRS) depth False h))"
  "for_await keyFiles checkExtension maxDepth es x p depth st = Inr st' \<Longrightarrow>
     fileTree st' = fileTree st
       @ map node_line
           (filter (listed maxDepth) (concat (map (tree_nodes (set IGNORE_DIRS) (Suc depth) False) es)))"
proof (induction keyFiles checkExtension maxDepth h p depth st
    and keyFiles checkExtension maxDepth es x p depth st
    arbitrary: st' and st' rule: traverse_for_await.induct)
  case (1 keyFiles checkExtension maxDepth n es x p depth st)
  show ?case
  proof (cases "maxDepth < int depth")
    case True
    with "1.prems" show ?thesis
      by (simp add: filter_listed_deep del: tree_nodes.simps)
  next
    case shallow: False
    show ?thesis
    proof (cases "n \<in> set IGNORE_DIRS")
      case True
      with shallow "1.prems" show ?thesis
        by (auto simp: filter_listed_children_below)
    next
      case False
      with shallow "1.prems" "1.IH" [of st'] show ?thesis
        by simp
    qed
  qed
next
  case (2 keyFiles checkExtension maxDepth n f p depth st)
  then show ?case
    by (auto split: if_splits sum.splits)
next
  case (3 keyFiles checkExtension maxDepth x p depth st)
  then show ?case by (simp split: option.splits)
next
  case (4 keyFiles checkExtension maxDepth entry es x p depth st)
  from "4.prems" obtain st1 where
    t: "traverse keyFiles checkExtension maxDepth entry (p @ ascii ''/'' @ name entry)
          (depth + 1) st = Inr st1"
    and r: "for_await keyFiles checkExtension maxDepth es x p depth st1 = Inr st'"
    by (auto split: sum.splits)
  from "4.IH"(1) [OF t] "4.IH"(2) [OF t r] show ?case
    by simp
qed

lemmas summary_evals = IGNORE_DIRS_def tree_line_def isKeyFile_def endsWith_def repeat_def
  directory_icon_def file_icon_def render_summary_def file_block_def
  generateDirectorySummary_def

lemma generateDirectorySummary_Inr:
  assumes "generateDirectorySummary h keyFiles checkExtension maxDepth = Inr s"
  shows "\<exists>st. traverse keyFiles checkExtension maxDepth h (name h) 0
                \<lparr>fileTree = [], importantFiles = []\<rparr> = Inr st
              \<and> s = render_summary (name h) st"
  using assms by (auto simp: generateDirectorySummary_def split: sum.splits)

text \<open>
  C3. In every summary that the directory summarizer produces, the tree lines, which
  stand between "Directory Structure:" and the empty line after them, joined by line
  feeds, are exactly the lines of the listed nodes of the tree, in pre-order: the nodes at
  depth at most \<open>maxDepth\<close>, the root at depth 0, that have no directory named
  \<open>node_modules\<close>, \<open>dist\<close>, \<open>.git\<close>, \<open>target\<close>, \<open>build\<close> or \<open>__pycache__\<close> above them;
  the line of a node is two spaces for each level of its depth, the icon, a space and the
  name. So no line is emitted for a node deeper than \<open>maxDepth\<close>, none for a node beneath
  a directory of the ignore set, and such a directory itself has its line, since a node's
  own name does not count against it.
\<close>

theorem summary_tree_lines:
  assumes "generateDirectorySummary h keyFiles checkExtension maxDepth = Inr s"
  shows "\<exists>rest. s = ascii ''Directory Root: '' @ name h @ ascii ''\<newline>\<newline>''
            @ ascii ''Directory Structure:\<newline>''
            @ join (map (\<lambda>(d, below, h').
                      repeat (ascii ''  '') d
                      @ (if is_directory h' then directory_icon else file_icon)
                      @ ascii '' '' @ name h')
                (filter (\<lambda>(d, below, h'). int d \<le> maxDepth \<and> \<not> below)
                  (tree_nodes {ascii ''node_modules'', ascii ''dist'', ascii ''.git'',
                      ascii ''target'', ascii ''build'', ascii ''__pycache__''} 0 False h)))
                (ascii ''\<newline>'')
            @ ascii ''\<newline>\<newline>'' @ rest"
proof -
  from generateDirectorySummary_Inr [OF assms] obtain st where
    t: "traverse keyFiles checkExtension maxDepth h (name h) 0
          \<lparr>fileTree = [], importantFiles = []\<rparr> = Inr st"
    and s: "s = render_summary (name h) st"
    by blast
  have i: "set IGNORE_DIRS = {ascii ''node_modules'', ascii ''dist'', ascii ''.git'',
      ascii ''target'', ascii ''build'', ascii ''__pycache__''}"
    by (simp add: IGNORE_DIRS_def)
  have l: "listed maxDepth = (\<lambda>(d, below, h'). int d \<le> maxDepth \<and> \<not> below)"
    by (auto simp: fun_eq_iff)
  have n: "node_line = (\<lambda>(d, below, h').
      repeat (ascii ''  '') d @ (if is_directory h' then directory_icon else file_icon)
      @ ascii '' '' @ name h')"
    by (auto simp: fun_eq_iff tree_line_def)
  from traverse_fileTree(1) [OF t] s show ?thesis
    unfolding i l n by (simp add: render_summary_def)
qed

lemma sample_project_summary:
  "generateDirectorySummary sample_project [] False 2
     = Inr (ascii ''Directory Root: app\<newline>\<newline>Directory Structure:\<newline>''
            @ directory_icon @ ascii '' app\<newline>  ''
            @ directory_icon @ ascii '' src\<newline>    ''
            @ directory_icon @ ascii '' lib\<newline>  ''
            @ directory_icon @ ascii '' dist\<newline>\<newline>'')"
  by (simp add: sample_project_def summary_evals string_evals)

lemma sample_project_lines:
  "join (map (\<lambda>(d, below, h').
                      repeat (ascii ''  '') d
                      @ (if is_directory h' then directory_icon else file_icon)
                      @ ascii '' '' @ name h')
                (filter (\<lambda>(d, below, h'). int d \<le> 2 \<and> \<not> below)
                  (tree_nodes {ascii ''node_modules'', ascii ''dist'', ascii ''.git'',
                      ascii ''target'', ascii ''build'', ascii ''__pycache__''} 0 False
                    sample_project)))
                (ascii ''\<newline>'')
     = directory_icon @ ascii '' app\<newline>  ''
       @ directory_icon @ ascii '' src\<newline>    ''
       @ directory_icon @ ascii '' lib\<newline>  ''
       @ directory_icon @ ascii '' dist''"
  by (simp add: sample_project_def summary_evals string_evals)

theorem summary_tree_lines_witness:
  "generateDirectorySummary sample_project [] False 2
     = Inr (ascii ''Directory Root: app\<newline>\<newline>Directory Structure:\<newline>''
            @ directory_icon @ ascii '' app\<newline>  ''
            @ directory_icon @ ascii '' src\<newline>    ''
            @ directory_icon @ ascii '' lib\<newline>  ''
            @ directory_icon @ ascii '' dist\<newline>\<newline>'') \<and>
   (\<exists>rest. ascii ''Directory Root: app\<newline>\<newline>Directory Structure:\<newline>''
            @ directory_icon @ ascii '' app\<newline>  ''
            @ directory_icon @ ascii '' src\<newline>    ''
            @ directory_icon @ ascii '' lib\<newline>  ''
            @ directory_icon @ ascii '' dist\<newline>\<newline>''
          = ascii ''Directory Root: app\<newline>\<newline>Directory Structure:\<newline>''
            @ (directory_icon @ ascii '' app\<newline>  ''
               @ directory_icon @ ascii '' src\<newline>    ''
               @ directory_icon @ ascii '' lib\<newline>  ''
               @ directory_icon @ ascii '' dist'')
            @ ascii ''\<newline>\<newline>'' @ rest)"
  using sample_project_summary summary_tree_lines [OF sample_project_summary]
  unfolding sample_project_lines
  by (simp add: sample_project_def ascii_def)

text \<open>
  C7. A file visited by the traversal (at a depth of at most \<open>maxDepth\<close>) that is a key file
  and has a size of at least 100KB gets its tree line and nothing else: the key files stay
  as they were. A file whose name ends in ".pdf" or ".epub" gets its tree line and nothing
  else whatever \<open>getFile()\<close> would return: the result does not depend on the file, so
  its content is not read, at any size.
\<close>

theorem key_file_content_limits:
  "(int depth \<le> maxDepth \<and> isKeyFile keyFiles checkExtension n \<and> 100 * 1024 \<le> file_size file \<longrightarrow>
      traverse keyFiles checkExtension maxDepth (FileHandle n (Inr file)) p depth st
        = Inr (st\<lparr>fileTree := fileTree st @ [tree_line depth (FileHandle n (Inr file))]\<rparr>)) \<and>
   (int depth \<le> maxDepth \<and> (endsWith n (ascii ''.pdf'') \<or> endsWith n (ascii ''.epub'')) \<longrightarrow>
      traverse keyFiles checkExtension maxDepth (FileHandle n f) p depth st
        = Inr (st\<lparr>fileTree := fileTree st
                 @ [repeat (ascii ''  '') depth @ file_icon @ ascii '' '' @ n]\<rparr>))"
  by (auto simp: tree_line_def)

theorem key_file_content_limits_witness:
  "int 1 \<le> 3 \<and> isKeyFile [ascii ''.csv''] True (ascii ''orders.csv'') \<and>
   100 * 1024 \<le> file_size sample_large \<and>
   traverse [ascii ''.csv''] True 3 (FileHandle (ascii ''orders.csv'') (Inr sample_large))
       (ascii ''data/orders.csv'') 1 sample_state
     = Inr \<lparr>fileTree = [directory_icon @ ascii '' data'',
                ascii ''  '' @ file_icon @ ascii '' orders.csv''],
            importantFiles = []\<rparr> \<and>
   endsWith (ascii ''book.pdf'') (ascii ''.pdf'') \<and>
   traverse [ascii ''.pdf''] True 3 (FileHandle (ascii ''book.pdf'') (Inr sample_pdf))
       (ascii ''data/book.pdf'') 1 sample_state
     = Inr \<lparr>fileTree = [directory_icon @ ascii '' data'',
                ascii ''  '' @ file_icon @ ascii '' book.pdf''],
            importantFiles = []\<rparr>"
proof -
  have h1: "int 1 \<le> 3 \<and> isKeyFile [ascii ''.csv''] True (ascii ''orders.csv'') \<and>
      100 * 1024 \<le> file_size sample_large"
    by (simp add: isKeyFile_def endsWith_def ascii_def sample_large_def)
  have h2: "int 1 \<le> 3 \<and> (endsWith (ascii ''book.pdf'') (ascii ''.pdf'')
      \<or> endsWith (ascii ''book.pdf'') (ascii ''.epub''))"
    by (simp add: endsWith_def ascii_def)
  have l1: "sample_state\<lparr>fileTree := fileTree sample_state
        @ [tree_line 1 (FileHandle (ascii ''orders.csv'') (Inr sample_large))]\<rparr>
      = \<lparr>fileTree = [directory_icon @ ascii '' data'',
                ascii ''  '' @ file_icon @ ascii '' orders.csv''],
            importantFiles = []\<rparr>"
    by (simp add: sample_state_def tree_line_def repeat_def ascii_def)
  have l2: "sample_state\<lparr>fileTree := fileTree sample_state
        @ [repeat (ascii ''  '') 1 @ file_icon @ ascii '' '' @ ascii ''book.pdf'']\<rparr>
      = \<lparr>fileTree = [directory_icon @ ascii '' data'',
                ascii ''  '' @ file_icon @ ascii '' book.pdf''],
            importantFiles = []\<rparr>"
    by (simp add: sample_state_def repeat_def ascii_def)
  from h1 key_file_content_limits
    [of 1 3 "[ascii ''.csv'']" True "ascii ''orders.csv''" sample_large "ascii ''data/orders.csv''"
      sample_state]
  have r1: "traverse [ascii ''.csv''] True 3 (FileHandle (ascii ''orders.csv'') (Inr sample_large))
       (ascii ''data/orders.csv'') 1 sample_state
     = Inr \<lparr>fileTree = [directory_icon @ ascii '' data'',
                ascii ''  '' @ file_icon @ ascii '' orders.csv''],
            importantFiles = []\<rparr>"
    unfolding l1 by blast
  from h2 key_file_content_limits
    [of 1 3 "[ascii ''.pdf'']" True "ascii ''book.pdf''" _ "ascii ''data/book.pdf''" sample_state
      "Inr sample_pdf"]
  have r2: "traverse [ascii ''.pdf''] True 3 (FileHandle (ascii ''book.pdf'') (Inr sample_pdf))
       (ascii ''data/book.pdf'') 1 sample_state
     = Inr \<lparr>fileTree = [directory_icon @ ascii '' data'',
                ascii ''  '' @ file_icon @ ascii '' book.pdf''],
            importantFiles = []\<rparr>"
    unfolding l2 by blast
  from h1 h2 r1 r2 show ?thesis
    by (simp add: endsWith_def ascii_def)
qed

lemma join_Cons: "join (l # ls) sep = l @ concat (map (\<lambda>y. sep @ y) ls)"
  by (induction ls arbitrary: l) simp_all

lemma trim_nonblank: "\<not> is_white_space c \<Longrightarrow> trim (c # cs) \<noteq> []"
  by (simp add: trim_def trimStart_def trimEnd_def dropWhile_eq_Nil_conv)

lemma render_summary_nonblank: "trim (render_summary rootName st) \<noteq> []"
proof -
  have "render_summary rootName st
      = 68 # (ascii ''irectory Root: '' @ rootName @ ascii ''\<newline>\<newline>''
     @ ascii ''Directory Structure:\<newline>'' @ join (fileTree st) (ascii ''\<newline>'')
     @ ascii ''\<newline>\<newline>''
     @ (if length (importantFiles st) > 0
        then ascii ''--- Key File Contents ---\<newline>\<newline>''
             @ concat (map file_block (importantFiles st))
        else []))"
    by (simp add: render_summary_def ascii_def)
  moreover have "\<not> is_white_space 68"
    by (simp add: is_white_space_def)
  ultimately show ?thesis
    by (simp only: trim_nonblank not_False_eq_True)
qed

lemma summary_nonblank:
  "generateDirectorySummary h keyFiles checkExtension maxDepth = Inr s \<Longrightarrow> trim s \<noteq> []"
  using generateDirectorySummary_Inr [of h keyFiles checkExtension maxDepth s]
    render_summary_nonblank by blast

lemma pick_without_check:
  "pickAndSummarizeDirectory (Some (Inr h)) keyFiles checkExtension =
     (case generateDirectorySummary h keyFiles checkExtension 3 of
        Inl e \<Rightarrow> if is_abort e then Inr None else Inl e
      | Inr s \<Rightarrow> Inr (Some s))"
  by (simp add: pickAndSummarizeDirectory_def summary_nonblank split: sum.split)

text \<open>
  C10. For every root directory and every \<open>maxDepth\<close> of at least 0, a summary that
  \<open>generateDirectorySummary\<close> returns is not blank: it starts with the header
  "Directory Root: " and the root's name, and the first tree line, after
  "Directory Structure:", is the root's own. So the test for a blank summary in
  \<open>pickAndSummarizeDirectory\<close> never succeeds: with a picked directory the function
  returns the summary, or hands on what the summary generation throws (\<open>null\<close> for an
  abort), and never raises the error of the empty directory on its own.
\<close>

theorem summary_never_blank:
  "(0 \<le> maxDepth \<and>
    generateDirectorySummary (DirectoryHandle n es x) keyFiles checkExtension maxDepth = Inr s \<longrightarrow>
      trim s \<noteq> [] \<and>
      (\<exists>rest. s = ascii ''Directory Root: '' @ n @ ascii ''\<newline>\<newline>''
                  @ ascii ''Directory Structure:\<newline>''
                  @ directory_icon @ ascii '' '' @ n @ rest)) \<and>
   pickAndSummarizeDirectory (Some (Inr (DirectoryHandle n es x))) keyFiles checkExtension =
     (case generateDirectorySummary (DirectoryHandle n es x) keyFiles checkExtension 3 of
        Inl e \<Rightarrow> if is_abort e then Inr None else Inl e
      | Inr s \<Rightarrow> Inr (Some s))"
proof -
  have "\<exists>rest. s = ascii ''Directory Root: '' @ n @ ascii ''\<newline>\<newline>''
                  @ ascii ''Directory Structure:\<newline>''
                  @ directory_icon @ ascii '' '' @ n @ rest"
    if d: "0 \<le> maxDepth"
      and g: "generateDirectorySummary (DirectoryHandle n es x) keyFiles checkExtension maxDepth
                = Inr s"
  proof -
    from generateDirectorySummary_Inr [OF g] obtain st where
      t: "traverse keyFiles checkExtension maxDepth (DirectoryHandle n es x) n 0
            \<lparr>fileTree = [], importantFiles = []\<rparr> = Inr st"
      and s: "s = render_summary n st"
      by auto
    from traverse_fileTree(1) [OF t] d obtain ls where
      "fileTree st = (directory_icon @ ascii '' '' @ n) # ls"
      by (simp add: tree_line_def repeat_def)
    with s show ?thesis
      by (simp add: render_summary_def join_Cons)
  qed
  then have "0 \<le> maxDepth \<and>
    generateDirectorySummary (DirectoryHandle n es x) keyFiles checkExtension maxDepth = Inr s \<longrightarrow>
      trim s \<noteq> [] \<and>
      (\<exists>rest. s = ascii ''Directory Root: '' @ n @ ascii ''\<newline>\<newline>''
                  @ ascii ''Directory Structure:\<newline>''
                  @ directory_icon @ ascii '' '' @ n @ rest)"
    using summary_nonblank [of "DirectoryHandle n es x" keyFiles checkExtension maxDepth s]
    by blast
  then show ?thesis
    using pick_without_check [of "DirectoryHandle n es x" keyFiles checkExtension]
    by blast
qed

lemma sample_empty_summary:
  "generateDirectorySummary sample_empty [] False 3
     = Inr (ascii ''Directory Root: empty\<newline>\<newline>Directory Structure:\<newline>''
            @ directory_icon @ ascii '' empty\<newline>\<newline>'')"
  by (simp add: sample_empty_def summary_evals string_evals)

theorem summary_never_blank_witness:
  "0 \<le> (3::int) \<and>
   generateDirectorySummary sample_empty [] False 3
     = Inr (ascii ''Directory Root: empty\<newline>\<newline>Directory Structure:\<newline>''
            @ directory_icon @ ascii '' empty\<newline>\<newline>'') \<and>
   trim (ascii ''Directory Root: empty\<newline>\<newline>Directory Structure:\<newline>''
            @ directory_icon @ ascii '' empty\<newline>\<newline>'') \<noteq> [] \<and>
   pickAndSummarizeDirectory (Some (Inr sample_empty)) [] False
     = Inr (Some (ascii ''Directory Root: empty\<newline>\<newline>Directory Structure:\<newline>''
            @ directory_icon @ ascii '' empty\<newline>\<newline>''))"
  using sample_empty_summary
    summary_never_blank [of 3 "ascii ''empty''" "[]" None "[]" False
      "ascii ''Directory Root: empty\<newline>\<newline>Directory Structure:\<newline>''
            @ directory_icon @ ascii '' empty\<newline>\<newline>''"]
  by (simp add: sample_empty_def)

text \<open>
  C8. When the picker throws a \<open>DOMException\<close> named "AbortError",
  \<open>pickAndSummarizeDirectory\<close> returns \<open>null\<close>: no error and no summary. Every exception
  that is not of this kind propagates to the caller, whether the picker throws it or the
  summary generation does, and so does the error of a browser without the picker.
\<close>

theorem pick_cancelled_or_failed:
  "pickAndSummarizeDirectory (Some (Inl (DOMException (ascii ''AbortError'') msg)))
       keyFiles checkExtension = Inr None \<and>
   (\<not> is_abort e \<longrightarrow>
      pickAndSummarizeDirectory (Some (Inl e)) keyFiles checkExtension = Inl e) \<and>
   (\<not> is_abort e \<and> generateDirectorySummary h keyFiles checkExtension 3 = Inl e \<longrightarrow>
      pickAndSummarizeDirectory (Some (Inr h)) keyFiles checkExtension = Inl e) \<and>
   pickAndSummarizeDirectory None keyFiles checkExtension = Inl unsupported_browser"
  by (simp add: pickAndSummarizeDirectory_def is_abort_def)

lemma sample_unreadable_summary:
  "generateDirectorySummary sample_unreadable [] False 3 = Inl not_found"
  by (simp add: sample_unreadable_def summary_evals string_evals)

theorem pick_cancelled_or_failed_witness:
  "\<not> is_abort not_found \<and>
   pickAndSummarizeDirectory (Some (Inl not_found)) [] False = Inl not_found \<and>
   generateDirectorySummary sample_unreadable [] False 3 = Inl not_found \<and>
   pickAndSummarizeDirectory (Some (Inr sample_unreadable)) [] False = Inl not_found"
proof -
  have h: "\<not> is_abort not_found"
    by (simp add: is_abort_def not_found_def ascii_def)
  from h sample_unreadable_summary
    pick_cancelled_or_failed [of _ "[]" False not_found sample_unreadable]
  show ?thesis by blast
qed

text \<open>
  C1. On the directory of the specification's example, with the key file set \<open>{".md"}\<close>
  matched by extension and \<open>maxDepth\<close> 3, the code records one key file, with the content
  "hello", and emits the tree lines of \<open>root\<close>, \<open>notes.md\<close> and \<open>node_modules\<close> and
  none beneath \<open>node_modules\<close>, as the claim says. But the path of the key file is
  \<open>root/notes.md/notes.md\<close>, not \<open>root/notes.md\<close>: \<open>traverse\<close> receives a path that
  already ends in the entry's name and appends the name once more.
\<close>

theorem sample_root_key_file_path:
  "traverse [ascii ''.md''] True 3 sample_root (name sample_root) 0
       \<lparr>fileTree = [], importantFiles = []\<rparr>
     = Inr \<lparr>fileTree = [directory_icon @ ascii '' root'',
                ascii ''  '' @ file_icon @ ascii '' notes.md'',
                ascii ''  '' @ directory_icon @ ascii '' node_modules''],
            importantFiles
              = [\<lparr>path = ascii ''root/notes.md/notes.md'', content = ascii ''hello''\<rparr>]\<rparr> \<and>
   generateDirectorySummary sample_root [ascii ''.md''] True 3
     = Inr (ascii ''Directory Root: root\<newline>\<newline>Directory Structure:\<newline>''
            @ directory_icon @ ascii '' root\<newline>  ''
            @ file_icon @ ascii '' notes.md\<newline>  ''
            @ directory_icon @ ascii '' node_modules\<newline>\<newline>''
            @ ascii ''--- Key File Contents ---\<newline>\<newline>''
            @ ascii ''### FILE: root/notes.md/notes.md\<newline>```\<newline>hello\<newline>```\<newline>\<newline>'') \<and>
   ascii ''root/notes.md/notes.md'' \<noteq> ascii ''root/notes.md''"
  by (simp add: sample_root_def summary_evals string_evals)

section \<open>Properties of the response adapter\<close>

text \<open>
  C5, as stated, fails. The response text \<open>{}\<close> parses, to an object without the field
  \<open>suggestions\<close>, and the adapter returns that object to the caller: no failure is
  signalled.
\<close>

theorem missing_suggestions_counterexample:
  "sample_JSON_parse (trim (ascii ''{}'')) = Inr (JObject []) \<and>
   field (JObject []) (ascii ''suggestions'') = None \<and>
   generateSuggestions sample_JSON_parse True (Some sample_ai) (ascii ''Task description'')
     = Inr (JObject [])"
  by (simp add: generateSuggestions_def sample_ai_def sample_JSON_parse_def field_def
      string_evals)

text \<open>
  C5, amended. With the service configured and a response that has a text: when the
  trimmed text fails to parse as JSON, the adapter throws the generic error "Failed to get
  automation suggestions"; when it parses, the adapter returns the parsed value as it is,
  whether or not it has the field \<open>suggestions\<close>.
\<close>

theorem generateSuggestions_parsed:
  "(generateContent prompt = Inr (Some response_text) \<and>
    JSON_parse (trim response_text) = Inl e \<longrightarrow>
      generateSuggestions JSON_parse True (Some generateContent) prompt
        = Inl failed_to_get_suggestions) \<and>
   (generateContent prompt = Inr (Some response_text) \<and>
    JSON_parse (trim response_text) = Inr v \<longrightarrow>
      generateSuggestions JSON_parse True (Some generateContent) prompt = Inr v)"
  by (simp add: generateSuggestions_def)

theorem generateSuggestions_parsed_witness:
  "sample_ai (ascii ''Task description'') = Inr (Some (ascii ''{}'')) \<and>
   sample_JSON_parse (trim (ascii ''{}'')) = Inr (JObject []) \<and>
   generateSuggestions sample_JSON_parse True (Some sample_ai) (ascii ''Task description'')
     = Inr (JObject []) \<and>
   sample_garbled_ai (ascii ''Task description'') = Inr (Some (ascii ''Here are three ideas'')) \<and>
   sample_JSON_parse (trim (ascii ''Here are three ideas''))
     = Inl (SyntaxError (ascii ''Unexpected token'')) \<and>
   generateSuggestions sample_JSON_parse True (Some sample_garbled_ai) (ascii ''Task description'')
     = Inl failed_to_get_suggestions"
proof -
  have h1: "sample_ai (ascii ''Task description'') = Inr (Some (ascii ''{}'')) \<and>
      sample_JSON_parse (trim (ascii ''{}'')) = Inr (JObject [])"
    by (simp add: sample_ai_def sample_JSON_parse_def string_evals)
  have h2: "sample_garbled_ai (ascii ''Task description'')
        = Inr (Some (ascii ''Here are three ideas'')) \<and>
      sample_JSON_parse (trim (ascii ''Here are three ideas''))
        = Inl (SyntaxError (ascii ''Unexpected token''))"
    by (simp add: sample_garbled_ai_def sample_JSON_parse_def string_evals)
  from h1 h2
    generateSuggestions_parsed [of sample_ai "ascii ''Task description''" "ascii ''{}''"
      sample_JSON_parse _ "JObject []"]
    generateSuggestions_parsed [of sample_garbled_ai "ascii ''Task description''"
      "ascii ''Here are three ideas''" sample_JSON_parse "SyntaxError (ascii ''Unexpected token'')"]
  show ?thesis by blast
qed

end
